theory Spec2Isabelle
  imports Main "HOL-Library.Word"
begin

unbundle bit_operations_syntax

section \<open>The chip handle and its environment\<close>

text \<open>
  The driver talks to the PN5180 through three pins and one SPI port. The model keeps the
  level of the select line (NSS), a trace of everything the driver does on the bus, and
  the inputs the hardware will deliver: the successive readings of the BUSY pin, the
  successive readings of the millisecond clock, the bytes the chip will shift out on MISO
  during receive frames, and the outcomes of the calls to malloc. An operation that needs
  an input the environment no longer holds has no result (\<open>None\<close>): the modelled
  stretch of time ended before the call returned.

  \<open>commandTimeout\<close> is the member of that name (declared in PN5180.h), as the value
  it has in the comparison with the unsigned long difference of two clock readings.
  \<open>uninit8\<close>, \<open>uninit16\<close> and \<open>uninit32\<close> are the indeterminate contents of
  memory the driver reads before writing it (an uninitialised local, fresh heap memory).
  The bytes shifted in while a command frame is sent land in a local copy of the frame
  that is never read again; they are not modelled. Debug output and \<open>delay\<close> have no
  effect on the state.
\<close>

datatype level = LOW | HIGH

datatype bus_event =
    SpiBegin
  | SpiEnd
  | NssWrite level
  | SpiSend "8 word list"
  | SpiRecv "8 word list"

record pn5180 =
  commandTimeout :: "32 word"
  nss :: level
  busyIn :: "level list"
  millisIn :: "32 word list"
  misoIn :: "8 word list"
  mallocIn :: "bool list"
  bus :: "bus_event list"
  readBufferStatic16 :: "8 word list"
  readBufferDynamic508 :: "8 word list option"
  uninit8 :: "8 word"
  uninit16 :: "16 word"
  uninit32 :: "32 word"

definition busEvent :: "bus_event \<Rightarrow> pn5180 \<Rightarrow> pn5180" where
  "busEvent e st = st\<lparr>bus := bus st @ [e]\<rparr>"

definition digitalWriteNSS :: "level \<Rightarrow> pn5180 \<Rightarrow> pn5180" where
  "digitalWriteNSS l st = st\<lparr>nss := l, bus := bus st @ [NssWrite l]\<rparr>"

text \<open>
  The body of every busy-line wait of \<open>transceiveCommand\<close>:
  \<^verbatim>\<open>while (want != digitalRead(PN5180_BUSY)) {
    if (millis() - startedWaiting > commandTimeout) { ... return false; } }\<close>
  Each round reads the pin once and, when the level is not the wanted one, the clock once.
  The result is whether the wanted level was seen, and the inputs left over.
\<close>

fun pollBusy :: "level \<Rightarrow> 32 word \<Rightarrow> 32 word \<Rightarrow> level list \<Rightarrow> 32 word list
    \<Rightarrow> (bool \<times> level list \<times> 32 word list) option" where
  "pollBusy want startedWaiting tmo [] ms = None"
| "pollBusy want startedWaiting tmo (b # bs) ms =
     (if b = want then Some (True, bs, ms)
      else (case ms of
              [] \<Rightarrow> None
            | t # ts \<Rightarrow>
                if t - startedWaiting > tmo then Some (False, bs, ts)
                else pollBusy want startedWaiting tmo bs ts))"

text \<open>\<open>startedWaiting = millis();\<close> followed by the wait loop.\<close>

definition waitBusy :: "level \<Rightarrow> pn5180 \<Rightarrow> (bool \<times> pn5180) option" where
  "waitBusy want st =
     (case millisIn st of
        [] \<Rightarrow> None
      | t0 # ms \<Rightarrow>
          (case pollBusy want t0 (commandTimeout st) (busyIn st) ms of
             None \<Rightarrow> None
           | Some (ok, bs, ms') \<Rightarrow> Some (ok, st\<lparr>busyIn := bs, millisIn := ms'\<rparr>)))"

text \<open>
  The exit taken by every timed-out wait, and by the write-only return:
  \<^verbatim>\<open>PN5180_SPI.endTransaction(); digitalWrite(PN5180_NSS, HIGH);\<close>
\<close>

definition endAndDeselect :: "pn5180 \<Rightarrow> pn5180" where
  "endAndDeselect st = digitalWriteNSS HIGH (busEvent SpiEnd st)"

text \<open>
  \<open>memset(recvBuffer, 0xFF, recvBufferLen); PN5180_SPI.transfer(recvBuffer, recvBufferLen);\<close>
  The transfer replaces the sentinel bytes by the bytes read from the chip.
\<close>

definition spiTransferIn :: "nat \<Rightarrow> pn5180 \<Rightarrow> (8 word list \<times> pn5180) option" where
  "spiTransferIn n st =
     (if length (misoIn st) < n then None
      else Some (take n (misoIn st),
                 st\<lparr>misoIn := drop n (misoIn st),
                    bus := bus st @ [SpiRecv (take n (misoIn st))]\<rparr>))"

section \<open>Bus transport (PN5180.cpp, transceiveCommand)\<close>

text \<open>
  Steps 0 to 5 of the send frame. The result is \<open>False\<close> after a timed-out wait, with
  the state left by the timeout exit.
\<close>

definition sendFrame :: "8 word list \<Rightarrow> pn5180 \<Rightarrow> (bool \<times> pn5180) option" where
  "sendFrame sendBuffer st =
     (case waitBusy LOW (busEvent SpiBegin st) of
        None \<Rightarrow> None
      | Some (ok0, s0) \<Rightarrow>
          if \<not> ok0 then Some (False, endAndDeselect s0)
          else
            (case waitBusy HIGH (busEvent (SpiSend sendBuffer) (digitalWriteNSS LOW s0)) of
               None \<Rightarrow> None
             | Some (ok3, s3) \<Rightarrow>
                 if \<not> ok3 then Some (False, endAndDeselect s3)
                 else
                   (case waitBusy LOW (digitalWriteNSS HIGH s3) of
                      None \<Rightarrow> None
                    | Some (ok5, s5) \<Rightarrow>
                        if \<not> ok5 then Some (False, endAndDeselect s5)
                        else Some (True, s5))))"

text \<open>
  Steps 1 to 5 of the receive frame. The bytes read are returned also when a later wait
  times out: the caller's buffer has been overwritten by then.
\<close>

definition recvFrame :: "nat \<Rightarrow> pn5180 \<Rightarrow> ((bool \<times> 8 word list) \<times> pn5180) option" where
  "recvFrame recvBufferLen st =
     (case spiTransferIn recvBufferLen (digitalWriteNSS LOW st) of
        None \<Rightarrow> None
      | Some (rx, s2) \<Rightarrow>
          (case waitBusy HIGH s2 of
             None \<Rightarrow> None
           | Some (ok3, s3) \<Rightarrow>
               if \<not> ok3 then Some ((False, rx), endAndDeselect s3)
               else
                 (case waitBusy LOW (digitalWriteNSS HIGH s3) of
                    None \<Rightarrow> None
                  | Some (ok5, s5) \<Rightarrow>
                      if \<not> ok5 then Some ((False, rx), endAndDeselect s5)
                      else Some ((True, rx), busEvent SpiEnd s5))))"

text \<open>
  \<open>transceiveCommand(sendBuffer, sendBufferLen, recvBuffer, recvBufferLen)\<close>.
  \<open>sendBuffer\<close> is the frame of \<open>sendBufferLen\<close> bytes; \<open>recvBuffer\<close> says whether the
  receive pointer is non-null. The result is the return value and, when the receive
  transfer took place, the bytes that now fill the first \<open>recvBufferLen\<close> bytes of the
  receive buffer.
\<close>

definition transceiveCommand :: "8 word list \<Rightarrow> bool \<Rightarrow> nat \<Rightarrow> pn5180
    \<Rightarrow> ((bool \<times> 8 word list option) \<times> pn5180) option" where
  "transceiveCommand sendBuffer recvBuffer recvBufferLen st =
     (case sendFrame sendBuffer st of
        None \<Rightarrow> None
      | Some (ok, s5) \<Rightarrow>
          if \<not> ok then Some ((False, None), s5)
          else if \<not> recvBuffer \<or> recvBufferLen = 0 then Some ((True, None), endAndDeselect s5)
          else
            (case recvFrame recvBufferLen s5 of
               None \<Rightarrow> None
             | Some ((ok', rx), s') \<Rightarrow> Some ((ok', Some rx), s')))"


subsection \<open>What an exchange consumes and leaves on the bus\<close>

text \<open>The command frames sent so far, read off the bus trace.\<close>

fun sentFrames :: "bus_event list \<Rightarrow> 8 word list list" where
  "sentFrames [] = []"
| "sentFrames (SpiSend f # es) = f # sentFrames es"
| "sentFrames (e # es) = sentFrames es"

lemma sentFrames_append: "sentFrames (a @ b) = sentFrames a @ sentFrames b"
  by (induction a rule: sentFrames.induct) auto

lemma pollBusy_Some:
  "pollBusy want t0 tmo bs ms = Some (ok, bs', ms') \<Longrightarrow>
     length bs' < length bs \<and> length ms' \<le> length ms"
  by (induction want t0 tmo bs ms rule: pollBusy.induct)
     (auto split: if_splits list.splits)

lemma pollBusy_False:
  "pollBusy want t0 tmo bs ms = Some (False, bs', ms') \<Longrightarrow> \<exists>t\<in>set ms. t - t0 > tmo"
  by (induction want t0 tmo bs ms rule: pollBusy.induct)
     (auto split: if_splits list.splits)

lemma waitBusy_Some:
  "waitBusy want st = Some (ok, st') \<Longrightarrow>
     length (millisIn st') < length (millisIn st) \<and> length (busyIn st') < length (busyIn st)
     \<and> bus st' = bus st \<and> nss st' = nss st \<and> misoIn st' = misoIn st"
  by (auto simp: waitBusy_def split: list.splits option.splits dest!: pollBusy_Some)

lemma endAndDeselect_simps [simp]:
  "nss (endAndDeselect s) = HIGH"
  "bus (endAndDeselect s) = bus s @ [SpiEnd, NssWrite HIGH]"
  "millisIn (endAndDeselect s) = millisIn s"
  "busyIn (endAndDeselect s) = busyIn s"
  "misoIn (endAndDeselect s) = misoIn s"
  by (simp_all add: endAndDeselect_def digitalWriteNSS_def busEvent_def)

lemma sendFrame_Some:
  "sendFrame sb st = Some (ok, st') \<Longrightarrow>
     length (millisIn st') < length (millisIn st) \<and> length (bus st) < length (bus st')"
  by (auto simp: sendFrame_def digitalWriteNSS_def busEvent_def
      split: option.splits if_splits dest!: waitBusy_Some)

lemma recvFrame_Some:
  "recvFrame n st = Some ((ok, rx), st') \<Longrightarrow>
     length (millisIn st') < length (millisIn st) \<and> length (bus st) < length (bus st')"
  by (auto simp: recvFrame_def spiTransferIn_def digitalWriteNSS_def busEvent_def
      split: option.splits if_splits dest!: waitBusy_Some)

lemma transceiveCommand_Some:
  "transceiveCommand sb rb n st = Some ((ok, rx), st') \<Longrightarrow>
     length (millisIn st') < length (millisIn st) \<and> length (bus st) < length (bus st')"
  by (auto simp: transceiveCommand_def split: option.splits if_splits
      dest!: sendFrame_Some recvFrame_Some)

lemma sendFrame_sent:
  "sendFrame sb st = Some (ok, st') \<Longrightarrow>
     (\<not> ok \<longrightarrow> nss st' = HIGH) \<and>
     length (sentFrames (bus st')) \<le> Suc (length (sentFrames (bus st)))"
  by (auto simp: sendFrame_def digitalWriteNSS_def busEvent_def sentFrames_append
      split: option.splits if_splits dest!: waitBusy_Some)

lemma recvFrame_sent:
  "recvFrame n st = Some ((ok, rx), st') \<Longrightarrow>
     (\<not> ok \<longrightarrow> nss st' = HIGH) \<and> sentFrames (bus st') = sentFrames (bus st)"
  by (auto simp: recvFrame_def spiTransferIn_def digitalWriteNSS_def busEvent_def sentFrames_append
      split: option.splits if_splits dest!: waitBusy_Some)

section \<open>Command and register layer (PN5180.cpp)\<close>

text \<open>
  PN5180.h is not among the sources. The register addresses and interrupt flag masks it
  defines are the fields of \<open>pn5180_h\<close>, a parameter of every function that names one.
  The command codes are the macros at the head of PN5180.cpp.
\<close>

record pn5180_h =
  SYSTEM_CONFIG :: "8 word"
  IRQ_STATUS :: "8 word"
  IRQ_CLEAR :: "8 word"
  CRC_RX_CONFIG :: "8 word"
  RX_STATUS :: "8 word"
  TX_CONFIG :: "8 word"
  CRC_TX_CONFIG :: "8 word"
  RF_STATUS :: "8 word"
  RX_IRQ_STAT :: "32 word"
  TX_IRQ_STAT :: "32 word"
  IDLE_IRQ_STAT :: "32 word"
  TX_RFOFF_IRQ_STAT :: "32 word"
  TX_RFON_IRQ_STAT :: "32 word"
  RX_SOF_DET_IRQ_STAT :: "32 word"

definition PN5180_WRITE_REGISTER :: "8 word" where "PN5180_WRITE_REGISTER = 0x00"
definition PN5180_WRITE_REGISTER_OR_MASK :: "8 word" where "PN5180_WRITE_REGISTER_OR_MASK = 0x01"
definition PN5180_WRITE_REGISTER_AND_MASK :: "8 word" where "PN5180_WRITE_REGISTER_AND_MASK = 0x02"
definition PN5180_READ_REGISTER :: "8 word" where "PN5180_READ_REGISTER = 0x04"
definition PN5180_READ_EEPROM :: "8 word" where "PN5180_READ_EEPROM = 0x07"
definition PN5180_SEND_DATA :: "8 word" where "PN5180_SEND_DATA = 0x09"
definition PN5180_READ_DATA :: "8 word" where "PN5180_READ_DATA = 0x0A"
definition PN5180_MIFARE_AUTHENTICATE :: "8 word" where "PN5180_MIFARE_AUTHENTICATE = 0x0C"
definition PN5180_LOAD_RF_CONFIG :: "8 word" where "PN5180_LOAD_RF_CONFIG = 0x11"
definition PN5180_RF_ON :: "8 word" where "PN5180_RF_ON = 0x16"
definition PN5180_RF_OFF :: "8 word" where "PN5180_RF_OFF = 0x17"
definition SETRF_ON_TIMEOUT :: "32 word" where "SETRF_ON_TIMEOUT = 500"
definition SETRF_OFF_TIMEOUT :: "32 word" where "SETRF_OFF_TIMEOUT = 500"

text \<open>
  The transceiver states, numbered as the table in \<open>getTransceiveState\<close> lists them
  (0 idle, 1 wait transmit, ..., 7 reserved); \<open>PN5180TransceiveStat(state)\<close> is the cast
  of the three-bit field to the enumeration.
\<close>

datatype PN5180TransceiveStat =
    PN5180_TS_Idle
  | PN5180_TS_WaitTransmit
  | PN5180_TS_Transmitting
  | PN5180_TS_WaitReceive
  | PN5180_TS_WaitForData
  | PN5180_TS_Receiving
  | PN5180_TS_LoopBack
  | PN5180_TS_RESERVED

definition toTransceiveStat :: "8 word \<Rightarrow> PN5180TransceiveStat" where
  "toTransceiveStat state =
     (if state = 0 then PN5180_TS_Idle
      else if state = 1 then PN5180_TS_WaitTransmit
      else if state = 2 then PN5180_TS_Transmitting
      else if state = 3 then PN5180_TS_WaitReceive
      else if state = 4 then PN5180_TS_WaitForData
      else if state = 5 then PN5180_TS_Receiving
      else if state = 6 then PN5180_TS_LoopBack
      else PN5180_TS_RESERVED)"

text \<open>\<open>uint8_t *p = (uint8_t*)&value\<close>: the four bytes of a 32-bit value, least significant first.\<close>

definition le32 :: "32 word \<Rightarrow> 8 word list" where
  "le32 v = [ucast v, ucast (drop_bit 8 v), ucast (drop_bit 16 v), ucast (drop_bit 24 v)]"

text \<open>The value of the bytes received into \<open>(uint8_t*)value\<close>, least significant first.\<close>

definition fromLe :: "8 word list \<Rightarrow> 32 word" where
  "fromLe bs = foldr (\<lambda>b acc. ucast b OR push_bit 8 acc) bs 0"

text \<open>\<open>millis()\<close>.\<close>

definition millis :: "pn5180 \<Rightarrow> (32 word \<times> pn5180) option" where
  "millis st = (case millisIn st of [] \<Rightarrow> None | t # ts \<Rightarrow> Some (t, st\<lparr>millisIn := ts\<rparr>))"

text \<open>The command frames without a response return what the transport returns.\<close>

definition writeOnly :: "8 word list \<Rightarrow> pn5180 \<Rightarrow> (bool \<times> pn5180) option" where
  "writeOnly cmd st =
     (case transceiveCommand cmd False 0 st of
        None \<Rightarrow> None
      | Some ((ok, rx), s) \<Rightarrow> Some (ok, s))"

definition writeRegister :: "8 word \<Rightarrow> 32 word \<Rightarrow> pn5180 \<Rightarrow> (bool \<times> pn5180) option" where
  "writeRegister reg v st = writeOnly ([PN5180_WRITE_REGISTER, reg] @ le32 v) st"

definition writeRegisterWithOrMask :: "8 word \<Rightarrow> 32 word \<Rightarrow> pn5180 \<Rightarrow> (bool \<times> pn5180) option" where
  "writeRegisterWithOrMask reg msk st = writeOnly ([PN5180_WRITE_REGISTER_OR_MASK, reg] @ le32 msk) st"

definition writeRegisterWithAndMask :: "8 word \<Rightarrow> 32 word \<Rightarrow> pn5180 \<Rightarrow> (bool \<times> pn5180) option" where
  "writeRegisterWithAndMask reg msk st = writeOnly ([PN5180_WRITE_REGISTER_AND_MASK, reg] @ le32 msk) st"

text \<open>
  \<open>readRegister(reg, &value)\<close>; \<open>v0\<close> is what \<open>*value\<close> holds before the call. It is
  overwritten as soon as the receive transfer takes place, also when the call then fails.
\<close>

definition readRegister :: "8 word \<Rightarrow> 32 word \<Rightarrow> pn5180 \<Rightarrow> ((bool \<times> 32 word) \<times> pn5180) option" where
  "readRegister reg v0 st =
     (case transceiveCommand [PN5180_READ_REGISTER, reg] True 4 st of
        None \<Rightarrow> None
      | Some ((ok, rx), s) \<Rightarrow>
          Some ((ok, (case rx of None \<Rightarrow> v0 | Some bs \<Rightarrow> fromLe bs)), s))"

definition loadRFConfig :: "8 word \<Rightarrow> 8 word \<Rightarrow> pn5180 \<Rightarrow> (bool \<times> pn5180) option" where
  "loadRFConfig txConf rxConf st = writeOnly [PN5180_LOAD_RF_CONFIG, txConf, rxConf] st"

definition cmd_RfOn :: "8 word \<Rightarrow> pn5180 \<Rightarrow> (bool \<times> pn5180) option" where
  "cmd_RfOn parameter st = writeOnly [PN5180_RF_ON, parameter] st"

definition cmd_RfOff :: "8 word \<Rightarrow> pn5180 \<Rightarrow> (bool \<times> pn5180) option" where
  "cmd_RfOff parameter st = writeOnly [PN5180_RF_OFF, parameter] st"

text \<open>\<open>buffer[0] = PN5180_SEND_DATA; buffer[1] = validBits;\<close> then \<open>len\<close> bytes of data.\<close>

definition cmd_SendData :: "8 word list \<Rightarrow> int \<Rightarrow> 8 word \<Rightarrow> pn5180 \<Rightarrow> (bool \<times> pn5180) option" where
  "cmd_SendData data len validBits st =
     writeOnly ([PN5180_SEND_DATA, validBits] @ take (nat len) data) st"

definition getIRQStatus :: "pn5180_h \<Rightarrow> pn5180 \<Rightarrow> (32 word \<times> pn5180) option" where
  "getIRQStatus K st =
     (case readRegister (IRQ_STATUS K) (uninit32 st) st of
        None \<Rightarrow> None
      | Some ((ok, irqStatus), s) \<Rightarrow> if \<not> ok then Some (0, s) else Some (irqStatus, s))"

definition clearIRQStatus :: "pn5180_h \<Rightarrow> 32 word \<Rightarrow> pn5180 \<Rightarrow> (bool \<times> pn5180) option" where
  "clearIRQStatus K irqMask st = writeRegister (IRQ_CLEAR K) irqMask st"

definition getTransceiveState :: "pn5180_h \<Rightarrow> pn5180 \<Rightarrow> (PN5180TransceiveStat \<times> pn5180) option" where
  "getTransceiveState K st =
     (case readRegister (RF_STATUS K) (uninit32 st) st of
        None \<Rightarrow> None
      | Some ((ok, rfStatus), s) \<Rightarrow>
          if \<not> ok then Some (toTransceiveStat 0, s)
          else Some (toTransceiveStat (ucast (drop_bit 24 rfStatus AND 0x07)), s))"


lemma writeOnly_Some:
  "writeOnly cmd st = Some (ok, st') \<Longrightarrow>
     length (millisIn st') < length (millisIn st) \<and> length (bus st) < length (bus st')"
  by (auto simp: writeOnly_def split: option.splits dest!: transceiveCommand_Some)

lemma readRegister_Some:
  "readRegister reg v0 st = Some (r, st') \<Longrightarrow>
     length (millisIn st') < length (millisIn st) \<and> length (bus st) < length (bus st')"
  by (auto simp: readRegister_def split: option.splits dest!: transceiveCommand_Some)

lemma millis_Some:
  "millis st = Some (t, st') \<Longrightarrow>
     length (millisIn st') < length (millisIn st) \<and> bus st' = bus st"
  by (auto simp: millis_def split: list.splits)

text \<open>
  The wait loop of \<open>setRF_on\<close> and of \<open>setRF_off\<close> (the two are the same text but for
  the flag and the timeout):
  \<^verbatim>\<open>while (1) {
    if (!readRegister(IRQ_STATUS, &irqStatus)) return false;
    if (0 != (flag & irqStatus)) break;
    if (millis() - startedWaiting > tmo) return false; }\<close>
\<close>

function waitIrqFlag :: "8 word \<Rightarrow> 32 word \<Rightarrow> 32 word \<Rightarrow> 32 word \<Rightarrow> 32 word \<Rightarrow> pn5180
    \<Rightarrow> (bool \<times> pn5180) option" where
  "waitIrqFlag reg flag tmo startedWaiting irqStatus st =
     (case readRegister reg irqStatus st of
        None \<Rightarrow> None
      | Some ((ok, irqStatus'), s1) \<Rightarrow>
          if \<not> ok then Some (False, s1)
          else if 0 \<noteq> (flag AND irqStatus') then Some (True, s1)
          else
            (case millis s1 of
               None \<Rightarrow> None
             | Some (t, s2) \<Rightarrow>
                 if t - startedWaiting > tmo then Some (False, s2)
                 else waitIrqFlag reg flag tmo startedWaiting irqStatus' s2))"
  by pat_completeness auto
termination
  by (relation "measure (\<lambda>(reg, flag, tmo, startedWaiting, irqStatus, st). length (millisIn st))")
     (auto dest!: readRegister_Some millis_Some)

declare waitIrqFlag.simps [simp del]

definition setRF_on :: "pn5180_h \<Rightarrow> pn5180 \<Rightarrow> (bool \<times> pn5180) option" where
  "setRF_on K st =
     (case cmd_RfOn 0 st of
        None \<Rightarrow> None
      | Some (ok, s1) \<Rightarrow>
          if \<not> ok then Some (False, s1)
          else
            (case millis s1 of
               None \<Rightarrow> None
             | Some (startedWaiting, s2) \<Rightarrow>
                 (case waitIrqFlag (IRQ_STATUS K) (TX_RFON_IRQ_STAT K) SETRF_ON_TIMEOUT
                         startedWaiting (uninit32 s2) s2 of
                    None \<Rightarrow> None
                  | Some (found, s3) \<Rightarrow>
                      if \<not> found then Some (False, s3)
                      else clearIRQStatus K (TX_RFON_IRQ_STAT K) s3)))"

definition setRF_off :: "pn5180_h \<Rightarrow> pn5180 \<Rightarrow> (bool \<times> pn5180) option" where
  "setRF_off K st =
     (case cmd_RfOff 0 st of
        None \<Rightarrow> None
      | Some (ok, s1) \<Rightarrow>
          if \<not> ok then Some (False, s1)
          else
            (case millis s1 of
               None \<Rightarrow> None
             | Some (startedWaiting, s2) \<Rightarrow>
                 (case waitIrqFlag (IRQ_STATUS K) (TX_RFOFF_IRQ_STAT K) SETRF_OFF_TIMEOUT
                         startedWaiting (uninit32 s2) s2 of
                    None \<Rightarrow> None
                  | Some (found, s3) \<Rightarrow>
                      if \<not> found then Some (False, s3)
                      else clearIRQStatus K (TX_RFOFF_IRQ_STAT K) s3)))"

text \<open>
  The bytes a receive transfer of the transport leaves in the caller's buffer, from
  offset \<open>off\<close> on. The buffers the driver passes are long enough for the lengths it asks.
  \<open>int\<close> and \<open>size_t\<close> are 32 bits wide: \<open>toSizeT\<close> is the conversion of an \<open>int\<close>
  argument to the \<open>size_t\<close> parameter.
\<close>

definition fillAt :: "nat \<Rightarrow> 8 word list option \<Rightarrow> 8 word list \<Rightarrow> 8 word list" where
  "fillAt off rx buffer =
     (case rx of
        None \<Rightarrow> buffer
      | Some bs \<Rightarrow> take off buffer @ bs @ drop (off + length bs) buffer)"

definition toSizeT :: "int \<Rightarrow> nat" where
  "toSizeT len = nat (len mod 2 ^ 32)"

text \<open>
  \<open>readEEprom(uint8_t addr, uint8_t *buffer, int len)\<close>. \<open>len\<close> is the 32-bit \<open>int\<close>, read by
  \<open>sint\<close>. The guard adds \<open>addr + len\<close> in \<open>int\<close>, where the sum wraps around; \<open>uint8_t(len)\<close>
  keeps the low byte, and the conversion to the \<open>size_t\<close> parameter keeps the bit pattern.
\<close>

definition readEEprom :: "8 word \<Rightarrow> 8 word list \<Rightarrow> 32 word \<Rightarrow> pn5180
    \<Rightarrow> ((bool \<times> 8 word list) \<times> pn5180) option" where
  "readEEprom addr buffer len st =
     (if addr > 254 \<or> sint ((ucast addr :: 32 word) + len) > 254 then Some ((False, buffer), st)
      else
        (case transceiveCommand [PN5180_READ_EEPROM, addr, ucast len] True (unat len) st of
           None \<Rightarrow> None
         | Some ((ok, rx), s) \<Rightarrow> Some ((ok, fillAt 0 rx buffer), s)))"

definition sendData :: "pn5180_h \<Rightarrow> 8 word list \<Rightarrow> int \<Rightarrow> 8 word \<Rightarrow> pn5180
    \<Rightarrow> (bool \<times> pn5180) option" where
  "sendData K data len validBits st =
     (if len > 260 then Some (False, st)
      else
        (case writeRegisterWithAndMask (SYSTEM_CONFIG K) 0xfffffff8 st of
           None \<Rightarrow> None
         | Some (ok1, s1) \<Rightarrow>
             if \<not> ok1 then Some (False, s1)
             else
               (case writeRegisterWithOrMask (SYSTEM_CONFIG K) 0x00000003 s1 of
                  None \<Rightarrow> None
                | Some (ok2, s2) \<Rightarrow>
                    if \<not> ok2 then Some (False, s2)
                    else
                      (case getTransceiveState K s2 of
                         None \<Rightarrow> None
                       | Some (transceiveState, s3) \<Rightarrow>
                           if PN5180_TS_WaitTransmit \<noteq> transceiveState then Some (False, s3)
                           else cmd_SendData data len validBits s3))))"

text \<open>
  \<open>readData(len)\<close> returns a pointer to one of the two read buffers, or null.
\<close>

datatype bufref = Static16 | Dynamic508

definition deref :: "pn5180 \<Rightarrow> bufref \<Rightarrow> 8 word list" where
  "deref st r =
     (case r of
        Static16 \<Rightarrow> readBufferStatic16 st
      | Dynamic508 \<Rightarrow> (case readBufferDynamic508 st of None \<Rightarrow> [] | Some b \<Rightarrow> b))"

text \<open>
  \<^verbatim>\<open>if (!readBufferDynamic508) {
    readBufferDynamic508 = (uint8_t *) malloc(508);
    if (!readBufferDynamic508) return 0; }\<close>
\<close>

definition allocDynamic508 :: "pn5180 \<Rightarrow> (bool \<times> pn5180) option" where
  "allocDynamic508 st =
     (case readBufferDynamic508 st of
        Some b \<Rightarrow> Some (True, st)
      | None \<Rightarrow>
          (case mallocIn st of
             [] \<Rightarrow> None
           | got # rest \<Rightarrow>
               if got
               then Some (True, st\<lparr>mallocIn := rest,
                                   readBufferDynamic508 := Some (replicate 508 (uninit8 st))\<rparr>)
               else Some (False, st\<lparr>mallocIn := rest\<rparr>)))"

definition readData :: "int \<Rightarrow> pn5180 \<Rightarrow> (bufref option \<times> pn5180) option" where
  "readData len st =
     (if len < 0 \<or> len > 508 then Some (None, st)
      else if len \<le> 16 then
        (case transceiveCommand [PN5180_READ_DATA, 0x00] True (toSizeT len) st of
           None \<Rightarrow> None
         | Some ((ok, rx), s) \<Rightarrow>
             Some (if ok then Some Static16 else None,
                   s\<lparr>readBufferStatic16 := fillAt 0 rx (readBufferStatic16 s)\<rparr>))
      else
        (case allocDynamic508 st of
           None \<Rightarrow> None
         | Some (got, s0) \<Rightarrow>
             if \<not> got then Some (None, s0)
             else
               (case transceiveCommand [PN5180_READ_DATA, 0x00] True (toSizeT len) s0 of
                  None \<Rightarrow> None
                | Some ((ok, rx), s) \<Rightarrow>
                    Some (if ok then Some Dynamic508 else None,
                          s\<lparr>readBufferDynamic508 :=
                               map_option (fillAt 0 rx) (readBufferDynamic508 s)\<rparr>))))"


text \<open>
  \<open>key\<close> holds the six key bytes and \<open>uid\<close> the four UID bytes the frame is built from.
  The result is the \<open>int16_t\<close> return value.
\<close>

definition mifareAuthenticate :: "8 word \<Rightarrow> 8 word list \<Rightarrow> 8 word \<Rightarrow> 8 word list \<Rightarrow> pn5180
    \<Rightarrow> (int \<times> pn5180) option" where
  "mifareAuthenticate blockNo key keyType uid st =
     (if keyType \<noteq> 0x60 \<and> keyType \<noteq> 0x61 then Some (- 2, st)
      else
        (case transceiveCommand
                ([PN5180_MIFARE_AUTHENTICATE] @ take 6 key @ [keyType, blockNo] @ take 4 uid)
                True 1 st of
           None \<Rightarrow> None
         | Some ((ok, rx), s) \<Rightarrow>
             if \<not> ok then Some (- 3, s)
             else Some (uint (fillAt 0 rx [0x02] ! 0), s)))"


section \<open>Example chips\<close>

text \<open>A chip handle with a timeout of 500 ms, NSS high and the given inputs.\<close>

definition exampleChip :: "level list \<Rightarrow> 32 word list \<Rightarrow> 8 word list \<Rightarrow> pn5180" where
  "exampleChip bs ms rx =
     \<lparr>commandTimeout = 500, nss = HIGH, busyIn = bs, millisIn = ms, misoIn = rx,
      mallocIn = [True], bus = [], readBufferStatic16 = replicate 16 0,
      readBufferDynamic508 = None, uninit8 = 0xAA, uninit16 = 0xAAAA, uninit32 = 0xAAAAAAAA\<rparr>"

lemmas transport_defs =
  transceiveCommand_def sendFrame_def recvFrame_def waitBusy_def spiTransferIn_def
  endAndDeselect_def digitalWriteNSS_def busEvent_def

text \<open>
  Claim C8. In \<open>transceiveCommand\<close>, a busy-line wait that times out makes the call
  return false at once, from the state that wait ended in, with nothing done but ending
  the SPI transaction and driving NSS high: this holds for each of the three waits of the
  send frame and each of the two waits of the receive frame. A wait times out only when a
  clock reading exceeded the start of the wait by more than \<open>commandTimeout\<close>. A call
  that returns false leaves NSS high and has sent the command frame at most once (there
  is no retry). When no response is requested (null receive buffer or zero receive
  length) and the three waits of the send frame succeed, the call stops there and
  returns true.
\<close>

theorem transceiveCommand_timeout:
  "(waitBusy LOW (busEvent SpiBegin st) = Some (False, a) \<longrightarrow>
      transceiveCommand sb rb n st = Some ((False, None), endAndDeselect a))
   \<and> (waitBusy LOW (busEvent SpiBegin st) = Some (True, a) \<and>
      waitBusy HIGH (busEvent (SpiSend sb) (digitalWriteNSS LOW a)) = Some (False, b) \<longrightarrow>
      transceiveCommand sb rb n st = Some ((False, None), endAndDeselect b))
   \<and> (waitBusy LOW (busEvent SpiBegin st) = Some (True, a) \<and>
      waitBusy HIGH (busEvent (SpiSend sb) (digitalWriteNSS LOW a)) = Some (True, b) \<and>
      waitBusy LOW (digitalWriteNSS HIGH b) = Some (False, c) \<longrightarrow>
      transceiveCommand sb rb n st = Some ((False, None), endAndDeselect c))
   \<and> (waitBusy LOW (busEvent SpiBegin st) = Some (True, a) \<and>
      waitBusy HIGH (busEvent (SpiSend sb) (digitalWriteNSS LOW a)) = Some (True, b) \<and>
      waitBusy LOW (digitalWriteNSS HIGH b) = Some (True, c) \<longrightarrow>
        ((\<not> rb \<or> n = 0) \<longrightarrow>
           transceiveCommand sb rb n st = Some ((True, None), endAndDeselect c))
        \<and> (rb \<and> n \<noteq> 0 \<and> spiTransferIn n (digitalWriteNSS LOW c) = Some (bytes, d) \<and>
           waitBusy HIGH d = Some (False, e) \<longrightarrow>
           transceiveCommand sb rb n st = Some ((False, Some bytes), endAndDeselect e))
        \<and> (rb \<and> n \<noteq> 0 \<and> spiTransferIn n (digitalWriteNSS LOW c) = Some (bytes, d) \<and>
           waitBusy HIGH d = Some (True, e) \<and>
           waitBusy LOW (digitalWriteNSS HIGH e) = Some (False, f) \<longrightarrow>
           transceiveCommand sb rb n st = Some ((False, Some bytes), endAndDeselect f)))
   \<and> nss (endAndDeselect x) = HIGH
   \<and> bus (endAndDeselect x) = bus x @ [SpiEnd, NssWrite HIGH]
   \<and> (waitBusy want x = Some (False, y) \<longrightarrow>
        (\<exists>t0 ms. millisIn x = t0 # ms \<and> (\<exists>t\<in>set ms. t - t0 > commandTimeout x)))
   \<and> (transceiveCommand sb rb n st = Some ((False, rx), st') \<longrightarrow>
        nss st' = HIGH \<and>
        length (sentFrames (bus st')) \<le> Suc (length (sentFrames (bus st))))"
proof -
  have tmo: "waitBusy want x = Some (False, y) \<Longrightarrow>
      \<exists>t0 ms. millisIn x = t0 # ms \<and> (\<exists>t\<in>set ms. t - t0 > commandTimeout x)"
    by (auto simp: waitBusy_def split: list.splits option.splits dest!: pollBusy_False)
  have fin: "transceiveCommand sb rb n st = Some ((False, rx), st') \<Longrightarrow>
      nss st' = HIGH \<and> length (sentFrames (bus st')) \<le> Suc (length (sentFrames (bus st)))"
    by (auto simp: transceiveCommand_def split: option.splits if_splits
        dest!: sendFrame_sent recvFrame_sent)
  show ?thesis
    using tmo fin
    by (simp add: transceiveCommand_def sendFrame_def recvFrame_def)
qed

text \<open>
  A chip that accepts the frame and then never raises BUSY: the second wait starts at
  5 ms, sees 10 ms, then 600 ms.
\<close>

theorem transceiveCommand_timeout_witness:
  "transceiveCommand [0x16, 0x00] False 0 (exampleChip [LOW, LOW, LOW, LOW] [0, 5, 10, 600, 700] [])
     = Some ((False, None),
         (exampleChip [LOW] [700] [])
           \<lparr>bus := [SpiBegin, NssWrite LOW, SpiSend [0x16, 0x00], SpiEnd, NssWrite HIGH]\<rparr>)
   \<and> waitBusy HIGH
        ((exampleChip [LOW, LOW, LOW] [5, 10, 600, 700] [])
           \<lparr>nss := LOW, bus := [SpiBegin, NssWrite LOW, SpiSend [0x16, 0x00]]\<rparr>)
     = Some (False, (exampleChip [LOW] [700] [])
           \<lparr>nss := LOW, bus := [SpiBegin, NssWrite LOW, SpiSend [0x16, 0x00]]\<rparr>)
   \<and> (\<exists>t\<in>set [10, 600, 700 :: 32 word]. t - 5 > 500)"
  using transceiveCommand_timeout
    [of "exampleChip [LOW, LOW, LOW, LOW] [0, 5, 10, 600, 700] []"
        "(exampleChip [LOW, LOW, LOW] [5, 10, 600, 700] []) \<lparr>bus := [SpiBegin]\<rparr>"
        "[0x16, 0x00]" False 0
        "(exampleChip [LOW] [700] [])
           \<lparr>nss := LOW, bus := [SpiBegin, NssWrite LOW, SpiSend [0x16, 0x00]]\<rparr>"
        undefined undefined undefined undefined undefined
        "(exampleChip [LOW, LOW, LOW] [5, 10, 600, 700] [])
           \<lparr>nss := LOW, bus := [SpiBegin, NssWrite LOW, SpiSend [0x16, 0x00]]\<rparr>"
        HIGH
        "(exampleChip [LOW] [700] [])
           \<lparr>nss := LOW, bus := [SpiBegin, NssWrite LOW, SpiSend [0x16, 0x00]]\<rparr>"
        None
        "(exampleChip [LOW] [700] [])
           \<lparr>bus := [SpiBegin, NssWrite LOW, SpiSend [0x16, 0x00], SpiEnd, NssWrite HIGH]\<rparr>"]
  by (simp add: transport_defs exampleChip_def)


section \<open>Facts about the command layer\<close>

text \<open>The fields of the chip handle that an exchange on the bus never touches.\<close>

definition sameHandle :: "pn5180 \<Rightarrow> pn5180 \<Rightarrow> bool" where
  "sameHandle st st' \<longleftrightarrow>
     commandTimeout st' = commandTimeout st \<and> mallocIn st' = mallocIn st \<and>
     readBufferStatic16 st' = readBufferStatic16 st \<and>
     readBufferDynamic508 st' = readBufferDynamic508 st \<and>
     uninit8 st' = uninit8 st \<and> uninit16 st' = uninit16 st \<and> uninit32 st' = uninit32 st"

lemma waitBusy_frame:
  "waitBusy want st = Some (ok, st') \<Longrightarrow>
     bus st' = bus st \<and> nss st' = nss st \<and> misoIn st' = misoIn st \<and> sameHandle st st'"
  by (auto simp: waitBusy_def sameHandle_def split: list.splits option.splits)

lemma sendFrame_trace:
  "sendFrame sb st = Some (ok, st') \<Longrightarrow>
     misoIn st' = misoIn st \<and> sameHandle st st' \<and>
     (\<exists>evs. bus st' = bus st @ SpiBegin # evs \<and>
        (sentFrames evs = [] \<or> sentFrames evs = [sb]) \<and> (ok \<longrightarrow> sentFrames evs = [sb]))"
  unfolding sendFrame_def
  by (auto simp: digitalWriteNSS_def busEvent_def endAndDeselect_def sameHandle_def
      split: option.splits if_splits dest!: waitBusy_frame)

lemma recvFrame_trace:
  "recvFrame n st = Some ((ok, rx), st') \<Longrightarrow>
     rx = take n (misoIn st) \<and> misoIn st' = drop n (misoIn st) \<and> n \<le> length (misoIn st) \<and>
     sameHandle st st' \<and> (\<exists>evs. bus st' = bus st @ evs \<and> sentFrames evs = [])"
  unfolding recvFrame_def
  by (auto simp: digitalWriteNSS_def busEvent_def endAndDeselect_def sameHandle_def spiTransferIn_def
      split: option.splits if_splits dest!: waitBusy_frame)

lemma transceiveCommand_trace:
  "transceiveCommand sb rb n st = Some ((ok, rx), st') \<Longrightarrow>
     sameHandle st st' \<and>
     (\<exists>evs. bus st' = bus st @ SpiBegin # evs \<and>
        (sentFrames evs = [] \<or> sentFrames evs = [sb]) \<and> (ok \<longrightarrow> sentFrames evs = [sb]))"
  unfolding transceiveCommand_def
  by (auto simp: sameHandle_def sentFrames_append endAndDeselect_def digitalWriteNSS_def busEvent_def
      split: option.splits if_splits dest!: sendFrame_trace recvFrame_trace)

lemma transceiveCommand_rx:
  "transceiveCommand sb rb n st = Some ((ok, rx), st') \<Longrightarrow>
     (case rx of
        None \<Rightarrow> misoIn st' = misoIn st
      | Some bs \<Rightarrow> bs = take n (misoIn st) \<and> misoIn st' = drop n (misoIn st)
                     \<and> n \<le> length (misoIn st)) \<and>
     (ok \<and> rb \<and> 0 < n \<longrightarrow> rx \<noteq> None) \<and> (\<not> rb \<or> n = 0 \<longrightarrow> rx = None)"
  unfolding transceiveCommand_def
  by (auto split: option.splits if_splits dest!: sendFrame_trace recvFrame_trace)


lemma transceiveCommand_sent:
  "transceiveCommand sb rb n st = Some ((ok, rx), st') \<Longrightarrow>
     \<exists>fs. sentFrames (bus st') = sentFrames (bus st) @ fs \<and>
        (fs = [] \<or> fs = [sb]) \<and> (ok \<longrightarrow> fs = [sb])"
  by (drule transceiveCommand_trace) (auto simp: sentFrames_append)

lemma writeOnly_sent:
  "writeOnly cmd st = Some (ok, st') \<Longrightarrow>
     \<exists>fs. sentFrames (bus st') = sentFrames (bus st) @ fs \<and>
        (fs = [] \<or> fs = [cmd]) \<and> (ok \<longrightarrow> fs = [cmd])"
  by (auto simp: writeOnly_def split: option.splits dest!: transceiveCommand_sent)

lemma getTransceiveState_sent:
  "getTransceiveState K st = Some (ts, st') \<Longrightarrow>
     \<exists>fs. sentFrames (bus st') = sentFrames (bus st) @ fs \<and>
        (fs = [] \<or> fs = [[PN5180_READ_REGISTER, RF_STATUS K]]) \<and>
        (ts \<noteq> PN5180_TS_Idle \<longrightarrow> fs = [[PN5180_READ_REGISTER, RF_STATUS K]])"
  by (auto simp: getTransceiveState_def readRegister_def toTransceiveStat_def
      split: option.splits if_splits dest!: transceiveCommand_sent)

text \<open>
  The four command frames of \<open>sendData\<close>, in the order the source issues them: the AND-mask
  write of SYSTEM_CONFIG (Idle/StopCom), the OR-mask write (Transceive), the read of
  RF_STATUS by \<open>getTransceiveState\<close>, and the SEND_DATA frame of \<open>cmd_SendData\<close>.
\<close>

definition sendDataFrames :: "pn5180_h \<Rightarrow> 8 word list \<Rightarrow> int \<Rightarrow> 8 word \<Rightarrow> 8 word list list" where
  "sendDataFrames K data len validBits =
     [[PN5180_WRITE_REGISTER_AND_MASK, SYSTEM_CONFIG K, 0xf8, 0xff, 0xff, 0xff],
      [PN5180_WRITE_REGISTER_OR_MASK, SYSTEM_CONFIG K, 0x03, 0x00, 0x00, 0x00],
      [PN5180_READ_REGISTER, RF_STATUS K],
      [PN5180_SEND_DATA, validBits] @ take (nat len) data]"

lemma le32_f8: "le32 0xfffffff8 = [0xf8, 0xff, 0xff, 0xff]"
  by (simp add: le32_def)

lemma le32_3: "le32 3 = [0x03, 0x00, 0x00, 0x00]"
  by (simp add: le32_def)

lemma sendData_sent:
  assumes "sendData K d len vb st = Some (r, st')"
  shows "\<exists>n\<le>4. sentFrames (bus st') = sentFrames (bus st) @ take n (sendDataFrames K d len vb)
            \<and> (r \<longrightarrow> n = 4)"
proof (cases "len > 260")
  case True
  with assms show ?thesis by (auto simp: sendData_def intro!: exI[of _ 0])
next
  case False
  let ?F = "sendDataFrames K d len vb"
  from assms False obtain ok1 s1 where
    1: "writeRegisterWithAndMask (SYSTEM_CONFIG K) 0xfffffff8 st = Some (ok1, s1)"
    by (auto simp: sendData_def split: option.splits)
  from 1 obtain f1 where f1: "sentFrames (bus s1) = sentFrames (bus st) @ f1"
    "f1 = [] \<or> f1 = [?F ! 0]" "ok1 \<longrightarrow> f1 = [?F ! 0]"
    by (auto simp: writeRegisterWithAndMask_def le32_f8 sendDataFrames_def dest!: writeOnly_sent)
  show ?thesis
  proof (cases ok1)
    case False
    with assms 1 \<open>\<not> len > 260\<close> have "r = False" "st' = s1"
      by (auto simp: sendData_def)
    with f1 show ?thesis
      by (auto simp: sendDataFrames_def intro: exI[of _ 0] exI[of _ 1])
  next
    case True
    with assms 1 \<open>\<not> len > 260\<close> obtain ok2 s2 where
      2: "writeRegisterWithOrMask (SYSTEM_CONFIG K) 3 s1 = Some (ok2, s2)"
      by (auto simp: sendData_def split: option.splits)
    from 2 obtain f2 where f2: "sentFrames (bus s2) = sentFrames (bus s1) @ f2"
      "f2 = [] \<or> f2 = [?F ! 1]" "ok2 \<longrightarrow> f2 = [?F ! 1]"
      by (auto simp: writeRegisterWithOrMask_def le32_3 sendDataFrames_def dest!: writeOnly_sent)
    from True f1 have f1': "f1 = [?F ! 0]" by simp
    show ?thesis
    proof (cases ok2)
      case False
      with assms 1 2 True \<open>\<not> len > 260\<close> have "r = False" "st' = s2"
        by (auto simp: sendData_def)
      with f1 f1' f2 show ?thesis
        by (auto simp: sendDataFrames_def intro: exI[of _ 1] exI[of _ 2])
    next
      case ok2: True
      with assms 1 2 True \<open>\<not> len > 260\<close> obtain ts s3 where
        3: "getTransceiveState K s2 = Some (ts, s3)"
        by (auto simp: sendData_def split: option.splits)
      from 3 obtain f3 where f3: "sentFrames (bus s3) = sentFrames (bus s2) @ f3"
        "f3 = [] \<or> f3 = [?F ! 2]" "ts \<noteq> PN5180_TS_Idle \<longrightarrow> f3 = [?F ! 2]"
        by (auto simp: sendDataFrames_def dest!: getTransceiveState_sent)
      from ok2 f2 have f2': "f2 = [?F ! 1]" by simp
      show ?thesis
      proof (cases "ts = PN5180_TS_WaitTransmit")
        case False
        with assms 1 2 3 True ok2 \<open>\<not> len > 260\<close> have "r = False" "st' = s3"
          by (auto simp: sendData_def)
        with f1 f1' f2 f2' f3 show ?thesis
          by (auto simp: sendDataFrames_def intro: exI[of _ 2] exI[of _ 3])
      next
        case wt: True
        with assms 1 2 3 True ok2 \<open>\<not> len > 260\<close> have
          4: "cmd_SendData d len vb s3 = Some (r, st')"
          by (auto simp: sendData_def)
        from 4 obtain f4 where f4: "sentFrames (bus st') = sentFrames (bus s3) @ f4"
          "f4 = [] \<or> f4 = [?F ! 3]" "r \<longrightarrow> f4 = [?F ! 3]"
          by (auto simp: cmd_SendData_def sendDataFrames_def dest!: writeOnly_sent)
        from wt f3 have f3': "f3 = [?F ! 2]" by simp
        with f1 f1' f2 f2' f3 f4 show ?thesis
          by (auto simp: sendDataFrames_def intro: exI[of _ 3] exI[of _ 4])
      qed
    qed
  qed
qed


text \<open>
  Register addresses and interrupt flag masks for the examples (the values of the PN5180
  data sheet), and the BUSY readings of a chip that answers every wait at the first poll:
  \<open>wr\<close> for a frame without response, \<open>rd\<close> for a frame with one.
\<close>

definition exampleRegs :: pn5180_h where
  "exampleRegs =
     \<lparr>SYSTEM_CONFIG = 0x00, IRQ_STATUS = 0x02, IRQ_CLEAR = 0x03, CRC_RX_CONFIG = 0x12,
      RX_STATUS = 0x13, TX_CONFIG = 0x18, CRC_TX_CONFIG = 0x19, RF_STATUS = 0x1d,
      RX_IRQ_STAT = 0x1, TX_IRQ_STAT = 0x2, IDLE_IRQ_STAT = 0x4, TX_RFOFF_IRQ_STAT = 0x100,
      TX_RFON_IRQ_STAT = 0x200, RX_SOF_DET_IRQ_STAT = 0x4000\<rparr>"

definition wr :: "level list" where "wr = [LOW, HIGH, LOW]"
definition rd :: "level list" where "rd = [LOW, HIGH, LOW, HIGH, LOW]"

lemmas command_defs =
  PN5180_WRITE_REGISTER_def PN5180_WRITE_REGISTER_OR_MASK_def PN5180_WRITE_REGISTER_AND_MASK_def
  PN5180_READ_REGISTER_def PN5180_READ_EEPROM_def PN5180_SEND_DATA_def PN5180_READ_DATA_def
  PN5180_MIFARE_AUTHENTICATE_def PN5180_LOAD_RF_CONFIG_def PN5180_RF_ON_def PN5180_RF_OFF_def
  SETRF_ON_TIMEOUT_def SETRF_OFF_TIMEOUT_def

lemmas register_defs =
  writeOnly_def writeRegister_def writeRegisterWithOrMask_def writeRegisterWithAndMask_def
  readRegister_def loadRFConfig_def cmd_RfOn_def cmd_RfOff_def cmd_SendData_def
  getIRQStatus_def clearIRQStatus_def getTransceiveState_def toTransceiveStat_def
  le32_def fromLe_def millis_def fillAt_def toSizeT_def

lemmas example_defs = exampleChip_def exampleRegs_def wr_def rd_def

text \<open>
  Claim C5. \<open>sendData\<close> (for a length of at most 260) first issues the AND-mask write
  that forces the transceiver to Idle/StopCom, then the OR-mask write that selects the
  Transceive command, then reads the transceiver state. When that state is not
  WaitTransmit it returns false from the state the read left, and the frames on the bus
  are no more than these three: the SEND_DATA frame was not issued. Only when the state
  is WaitTransmit does it go on to \<open>cmd_SendData\<close>. Whatever the outcome, the frames it
  sent are an initial part of the four frames in that order, and all four when it
  returns true.
\<close>

theorem sendData_protocol:
  "(len > 260 \<longrightarrow> sendData K d len vb st = Some (False, st))
   \<and> (len \<le> 260 \<and>
      writeRegisterWithAndMask (SYSTEM_CONFIG K) 0xfffffff8 st = Some (True, s1) \<and>
      writeRegisterWithOrMask (SYSTEM_CONFIG K) 0x00000003 s1 = Some (True, s2) \<and>
      getTransceiveState K s2 = Some (ts, s3) \<longrightarrow>
        (ts \<noteq> PN5180_TS_WaitTransmit \<longrightarrow>
           sendData K d len vb st = Some (False, s3) \<and>
           (\<exists>n\<le>3. sentFrames (bus s3) = sentFrames (bus st) @ take n (sendDataFrames K d len vb)))
        \<and> (ts = PN5180_TS_WaitTransmit \<longrightarrow>
           sendData K d len vb st = cmd_SendData d len vb s3))
   \<and> (sendData K d len vb st = Some (r, st') \<longrightarrow>
        (\<exists>n\<le>4. sentFrames (bus st') = sentFrames (bus st) @ take n (sendDataFrames K d len vb)
           \<and> (r \<longrightarrow> n = 4)))"
proof -
  have pre: "\<exists>n\<le>3. sentFrames (bus s3) = sentFrames (bus st) @ take n (sendDataFrames K d len vb)"
    if 1: "writeRegisterWithAndMask (SYSTEM_CONFIG K) 0xfffffff8 st = Some (True, s1)"
    and 2: "writeRegisterWithOrMask (SYSTEM_CONFIG K) 0x00000003 s1 = Some (True, s2)"
    and 3: "getTransceiveState K s2 = Some (ts, s3)"
  proof -
    from 1 have "sentFrames (bus s1) = sentFrames (bus st) @ [sendDataFrames K d len vb ! 0]"
      by (auto simp: writeRegisterWithAndMask_def le32_f8 sendDataFrames_def dest!: writeOnly_sent)
    moreover from 2 have "sentFrames (bus s2) = sentFrames (bus s1) @ [sendDataFrames K d len vb ! 1]"
      by (auto simp: writeRegisterWithOrMask_def le32_3 sendDataFrames_def dest!: writeOnly_sent)
    moreover from 3 obtain f3 where "sentFrames (bus s3) = sentFrames (bus s2) @ f3"
      "f3 = [] \<or> f3 = [sendDataFrames K d len vb ! 2]"
      by (auto simp: sendDataFrames_def dest!: getTransceiveState_sent)
    ultimately show ?thesis
      by (auto simp: sendDataFrames_def intro: exI[of _ 2] exI[of _ 3])
  qed
  show ?thesis
    using pre sendData_sent [of K d len vb st r st']
    by (auto simp: sendData_def)
qed


text \<open>A chip whose RF_STATUS reads 0 (transceiver idle) after the two mask writes.\<close>

definition chipIdle :: pn5180 where
  "chipIdle = exampleChip (wr @ wr @ rd) [0, 0, 0, 0, 0, 0, 0, 0, 0, 0, 0] [0, 0, 0, 0]"

theorem sendData_protocol_witness:
  "map_option fst (sendData exampleRegs [0x26] 1 0x07 chipIdle) = Some False
   \<and> map_option (sentFrames \<circ> bus \<circ> snd) (sendData exampleRegs [0x26] 1 0x07 chipIdle)
     = Some [[0x02, 0x00, 0xf8, 0xff, 0xff, 0xff], [0x01, 0x00, 0x03, 0x00, 0x00, 0x00],
             [0x04, 0x1d]]"
  using sendData_protocol
    [of 1 exampleRegs "[0x26]" "0x07" chipIdle
        "snd (the (writeRegisterWithAndMask 0x00 0xfffffff8 chipIdle))"
        "snd (the (writeRegisterWithOrMask 0x00 0x00000003
           (snd (the (writeRegisterWithAndMask 0x00 0xfffffff8 chipIdle)))))"
        PN5180_TS_Idle
        "snd (the (getTransceiveState exampleRegs
           (snd (the (writeRegisterWithOrMask 0x00 0x00000003
             (snd (the (writeRegisterWithAndMask 0x00 0xfffffff8 chipIdle))))))))"
        False
        "snd (the (sendData exampleRegs [0x26] 1 0x07 chipIdle))"]
  by (simp add: sendData_def register_defs command_defs transport_defs example_defs
      sendDataFrames_def chipIdle_def)


text \<open>
  The guard of \<open>readEEprom\<close>. As long as \<open>len\<close> is at most \<open>INT_MAX - 255\<close> the sum the guard
  computes is the sum of the two integers. When the guard holds, \<open>readEEprom\<close> returns false
  and the chip handle is unchanged: nothing happened on the bus. Otherwise it hands the
  READ_EEPROM frame \<open>{0x07, addr, uint8_t(len)}\<close> to the transport: a bus transaction is
  begun, and the frame is the one frame sent (it is sent unless the first busy wait times
  out).
\<close>

lemma ucast_addr: "sint (ucast (addr :: 8 word) :: 32 word) = uint addr"
proof -
  have b: "uint addr < 256" using uint_lt2p [of addr] by simp
  have c: "0 \<le> uint addr" by simp
  from b c have "- 2147483648 \<le> uint addr \<and> uint addr < 2147483648" by linarith
  then show ?thesis
    by (simp add: sint_uint signed_take_bit_int_eq_self_iff uint_up_ucast is_up)
qed

lemma readEEprom_sum:
  assumes "sint len \<le> 2147483392"
  shows "sint ((ucast (addr :: 8 word) :: 32 word) + len) = uint addr + sint len"
proof -
  have b: "uint addr < 256" using uint_lt2p [of addr] by simp
  have c: "0 \<le> uint addr" by simp
  have d: "- 2147483648 \<le> sint len" using sint_ge [of len] by simp
  from assms b c d
  have "- 2147483648 \<le> uint addr + sint len \<and> uint addr + sint len < 2147483648"
    by linarith
  then show ?thesis
    by (simp add: sint_word_ariths ucast_addr signed_take_bit_int_eq_self_iff)
qed

lemma readEEprom_guard:
  "(addr > 254 \<or> sint ((ucast addr :: 32 word) + len) > 254 \<longrightarrow>
      readEEprom addr buffer len st = Some ((False, buffer), st))
   \<and> (\<not> (addr > 254 \<or> sint ((ucast addr :: 32 word) + len) > 254) \<longrightarrow>
      readEEprom addr buffer len st =
        (case transceiveCommand [PN5180_READ_EEPROM, addr, ucast len] True (unat len) st of
           None \<Rightarrow> None
         | Some ((ok, rx), s) \<Rightarrow> Some ((ok, fillAt 0 rx buffer), s))
      \<and> (readEEprom addr buffer len st = Some ((ok', buffer'), st') \<longrightarrow>
           (\<exists>evs. bus st' = bus st @ SpiBegin # evs \<and>
              (sentFrames evs = [] \<or> sentFrames evs = [[PN5180_READ_EEPROM, addr, ucast len]]) \<and>
              (ok' \<longrightarrow> sentFrames evs = [[PN5180_READ_EEPROM, addr, ucast len]]))))"
  by (auto simp: readEEprom_def split: option.splits dest!: transceiveCommand_trace)

lemma readEEprom_in_range:
  assumes "sint len \<le> 2147483392" "addr > 254 \<or> uint addr + sint len > 254"
  shows "readEEprom addr buffer len st = Some ((False, buffer), st)"
  using assms readEEprom_sum [OF assms(1), of addr] by (auto simp: readEEprom_def)

lemma readEEprom_example:
  "readEEprom 250 [0, 0, 0, 0, 0, 0, 0, 0, 0, 0] 10 (exampleChip rd [0, 0, 0, 0, 0] [0x11])
     = Some ((False, [0, 0, 0, 0, 0, 0, 0, 0, 0, 0]), exampleChip rd [0, 0, 0, 0, 0] [0x11])
   \<and> map_option fst (readEEprom 0x36 [0] 1 (exampleChip rd [0, 0, 0, 0, 0] [0x11]))
     = Some (True, [0x11])
   \<and> map_option (bus \<circ> snd) (readEEprom 0x36 [0] 1 (exampleChip rd [0, 0, 0, 0, 0] [0x11]))
     = Some [SpiBegin, NssWrite LOW, SpiSend [0x07, 0x36, 0x01], NssWrite HIGH,
             NssWrite LOW, SpiRecv [0x11], NssWrite HIGH, SpiEnd]"
  by (simp add: readEEprom_def register_defs command_defs transport_defs example_defs)

text \<open>
  Claim C6: for every address and length with \<open>addr > 254\<close> or \<open>addr + len > 254\<close>,
  \<open>readEEprom\<close> returns failure and performs no bus transaction, and for every other pair it
  issues the READ_EEPROM command. The code does so for every length up to \<open>INT_MAX - 255\<close>
  (\<open>readEEprom_in_range\<close>, \<open>readEEprom_guard\<close>), but not at \<open>addr = 1\<close>,
  \<open>len = 2147483647\<close>: there \<open>addr + len\<close> exceeds 254, the sum computed in \<open>int\<close> wraps to
  \<open>INT_MIN\<close>, the guard passes, and the frame \<open>{0x07, 0x01, 0xff}\<close> is handed to the
  transport with a receive length of 2147483647. On a chip whose busy line stays low after
  the frame (the example that follows), the call returns false with that frame on the bus.
\<close>

theorem readEEprom_overflow:
  "readEEprom 1 buffer 0x7fffffff st =
     (case transceiveCommand [PN5180_READ_EEPROM, 1, 0xff] True 2147483647 st of
        None \<Rightarrow> None
      | Some ((ok, rx), s) \<Rightarrow> Some ((ok, fillAt 0 rx buffer), s))"
proof -
  have u: "(2147483647 :: 8 word) = 0xff" by simp
  show ?thesis by (simp add: readEEprom_def u)
qed

theorem readEEprom_overflow_witness:
  "map_option fst (readEEprom 1 [0] 0x7fffffff (exampleChip [LOW, LOW] [0, 0, 1000] []))
     = Some (False, [0])
   \<and> map_option (bus \<circ> snd) (readEEprom 1 [0] 0x7fffffff (exampleChip [LOW, LOW] [0, 0, 1000] []))
     = Some [SpiBegin, NssWrite LOW, SpiSend [0x07, 0x01, 0xff], SpiEnd, NssWrite HIGH]"
  using readEEprom_overflow [of "[0]" "exampleChip [LOW, LOW] [0, 0, 1000] []"]
  by (simp add: register_defs command_defs transport_defs example_defs)

text \<open>
  Claim C9. For every key type other than 0x60 and 0x61, \<open>mifareAuthenticate\<close> returns
  -2 and the chip handle is unchanged: nothing happened on the bus. For the key types 0x60
  and 0x61 it hands the 13-byte authenticate frame to the transport. A call that left
  anything on the bus had key type 0x60 or 0x61 and did not return -2.
\<close>

theorem mifareAuthenticate_keyType:
  "(keyType \<noteq> 0x60 \<and> keyType \<noteq> 0x61 \<longrightarrow>
      mifareAuthenticate blockNo key keyType uid st = Some (- 2, st))
   \<and> (keyType = 0x60 \<or> keyType = 0x61 \<longrightarrow>
      mifareAuthenticate blockNo key keyType uid st =
        (case transceiveCommand
                ([PN5180_MIFARE_AUTHENTICATE] @ take 6 key @ [keyType, blockNo] @ take 4 uid)
                True 1 st of
           None \<Rightarrow> None
         | Some ((ok, rx), s) \<Rightarrow>
             if \<not> ok then Some (- 3, s) else Some (uint (fillAt 0 rx [0x02] ! 0), s)))
   \<and> (mifareAuthenticate blockNo key keyType uid st = Some (rc, st') \<and> bus st' \<noteq> bus st \<longrightarrow>
        (keyType = 0x60 \<or> keyType = 0x61) \<and> rc \<noteq> - 2 \<and>
        (\<exists>evs. bus st' = bus st @ SpiBegin # evs \<and>
           (sentFrames evs = [] \<or> sentFrames evs =
              [[PN5180_MIFARE_AUTHENTICATE] @ take 6 key @ [keyType, blockNo] @ take 4 uid])))"
proof (cases "keyType = 0x60 \<or> keyType = 0x61")
  case False
  then show ?thesis by (auto simp: mifareAuthenticate_def)
next
  case True
  let ?f = "[PN5180_MIFARE_AUTHENTICATE] @ take 6 key @ [keyType, blockNo] @ take 4 uid"
  have eq: "mifareAuthenticate blockNo key keyType uid st =
        (case transceiveCommand ?f True 1 st of
           None \<Rightarrow> None
         | Some ((ok, rx), s) \<Rightarrow>
             if \<not> ok then Some (- 3, s) else Some (uint (fillAt 0 rx [0x02] ! 0), s))"
    using True by (auto simp: mifareAuthenticate_def)
  have tr: "rc \<noteq> - 2 \<and> (\<exists>evs. bus st' = bus st @ SpiBegin # evs \<and>
           (sentFrames evs = [] \<or> sentFrames evs = [?f]))"
    if "mifareAuthenticate blockNo key keyType uid st = Some (rc, st')"
  proof -
    from that eq obtain ok rx where
      t: "transceiveCommand ?f True 1 st = Some ((ok, rx), st')"
      and rc: "rc = (if \<not> ok then - 3 else uint (fillAt 0 rx [0x02] ! 0))"
      by (auto split: option.splits if_splits)
    have "uint (fillAt 0 rx [0x02] ! 0) \<noteq> - 2"
      using uint_ge_0 [of "fillAt 0 rx [0x02] ! 0"] by linarith
    with rc have "rc \<noteq> - 2" by (auto split: if_splits)
    with transceiveCommand_trace [OF t] show ?thesis by auto
  qed
  from True eq tr show ?thesis by auto
qed

theorem mifareAuthenticate_keyType_witness:
  "mifareAuthenticate 4 [0xff, 0xff, 0xff, 0xff, 0xff, 0xff] 0x62 [0x04, 0x12, 0x34, 0x56]
       (exampleChip rd [0, 0, 0, 0, 0] [0x00])
     = Some (- 2, exampleChip rd [0, 0, 0, 0, 0] [0x00])
   \<and> map_option fst (mifareAuthenticate 4 [0xff, 0xff, 0xff, 0xff, 0xff, 0xff] 0x60
       [0x04, 0x12, 0x34, 0x56] (exampleChip rd [0, 0, 0, 0, 0] [0x00])) = Some 0
   \<and> map_option (sentFrames \<circ> bus \<circ> snd)
       (mifareAuthenticate 4 [0xff, 0xff, 0xff, 0xff, 0xff, 0xff] 0x60
         [0x04, 0x12, 0x34, 0x56] (exampleChip rd [0, 0, 0, 0, 0] [0x00]))
     = Some [[0x0C, 0xff, 0xff, 0xff, 0xff, 0xff, 0xff, 0x60, 0x04, 0x04, 0x12, 0x34, 0x56]]"
  using mifareAuthenticate_keyType
    [of "0x62" 4 "[0xff, 0xff, 0xff, 0xff, 0xff, 0xff]" "[0x04, 0x12, 0x34, 0x56]"
        "exampleChip rd [0, 0, 0, 0, 0] [0x00]" "- 2" "exampleChip rd [0, 0, 0, 0, 0] [0x00]"]
    mifareAuthenticate_keyType
    [of "0x60" 4 "[0xff, 0xff, 0xff, 0xff, 0xff, 0xff]" "[0x04, 0x12, 0x34, 0x56]"
        "exampleChip rd [0, 0, 0, 0, 0] [0x00]" 0
        "snd (the (mifareAuthenticate 4 [0xff, 0xff, 0xff, 0xff, 0xff, 0xff] 0x60
           [0x04, 0x12, 0x34, 0x56] (exampleChip rd [0, 0, 0, 0, 0] [0x00])))"]
  by (simp add: mifareAuthenticate_def register_defs command_defs transport_defs example_defs)


lemma toSizeT_nat: "0 \<le> len \<Longrightarrow> len \<le> 508 \<Longrightarrow> toSizeT len = nat len"
  by (simp add: toSizeT_def)

lemma readData_static:
  assumes "0 \<le> len" "len \<le> 16" "readData len st = Some (r, st')"
  shows "(r = None \<or> r = Some Static16) \<and> mallocIn st' = mallocIn st \<and>
         readBufferDynamic508 st' = readBufferDynamic508 st \<and>
         (r \<noteq> None \<longrightarrow> take (nat len) (readBufferStatic16 st') = take (nat len) (misoIn st)
            \<and> nat len \<le> length (misoIn st) \<and> misoIn st' = drop (nat len) (misoIn st))"
proof -
  from assms obtain ok rx s where
    t: "transceiveCommand [PN5180_READ_DATA, 0x00] True (nat len) st = Some ((ok, rx), s)"
    and r: "r = (if ok then Some Static16 else None)"
    and s: "st' = s\<lparr>readBufferStatic16 := fillAt 0 rx (readBufferStatic16 s)\<rparr>"
    by (auto simp: readData_def toSizeT_nat split: option.splits if_splits)
  from transceiveCommand_trace [OF t] have h: "sameHandle st s" by simp
  from transceiveCommand_rx [OF t] r s h show ?thesis
    by (cases rx; cases "nat len = 0") (auto simp: sameHandle_def fillAt_def)
qed


lemma allocDynamic508_Some:
  "allocDynamic508 st = Some (got, s0) \<Longrightarrow>
     misoIn s0 = misoIn st \<and> bus s0 = bus st \<and> readBufferStatic16 s0 = readBufferStatic16 st \<and>
     (case readBufferDynamic508 st of
        Some b \<Rightarrow> got \<and> s0 = st
      | None \<Rightarrow> mallocIn st = got # mallocIn s0 \<and>
          (if got then readBufferDynamic508 s0 = Some (replicate 508 (uninit8 st))
           else readBufferDynamic508 s0 = None))"
  by (auto simp: allocDynamic508_def split: option.splits list.splits if_splits)

lemma readData_dynamic_eq:
  "16 < len \<Longrightarrow> len \<le> 508 \<Longrightarrow>
   readData len st =
     (case allocDynamic508 st of
        None \<Rightarrow> None
      | Some (got, s0) \<Rightarrow>
          if \<not> got then Some (None, s0)
          else
            (case transceiveCommand [PN5180_READ_DATA, 0x00] True (nat len) s0 of
               None \<Rightarrow> None
             | Some ((ok, rx), s) \<Rightarrow>
                 Some (if ok then Some Dynamic508 else None,
                       s\<lparr>readBufferDynamic508 :=
                            map_option (fillAt 0 rx) (readBufferDynamic508 s)\<rparr>)))"
  using toSizeT_nat [of len] by (simp add: readData_def split: option.split prod.split)


lemma readData_dynamic:
  assumes "16 < len" "len \<le> 508" "readData len st = Some (r, st')"
  shows "(r = None \<or> r = Some Dynamic508) \<and>
         (case readBufferDynamic508 st of
            Some b \<Rightarrow> mallocIn st' = mallocIn st \<and> readBufferDynamic508 st' \<noteq> None
          | None \<Rightarrow> (\<exists>got. mallocIn st = got # mallocIn st' \<and>
                        (if got then \<exists>b. readBufferDynamic508 st' = Some b \<and> length b = 508
                         else readBufferDynamic508 st' = None \<and> r = None \<and> bus st' = bus st))) \<and>
         readBufferStatic16 st' = readBufferStatic16 st \<and>
         (r \<noteq> None \<longrightarrow> take (nat len) (deref st' Dynamic508) = take (nat len) (misoIn st)
            \<and> nat len \<le> length (misoIn st) \<and> misoIn st' = drop (nat len) (misoIn st))"
proof -
  note eq = readData_dynamic_eq [OF assms(1,2), of st]
  from assms(3) eq obtain got s0 where a: "allocDynamic508 st = Some (got, s0)"
    by (cases "allocDynamic508 st") auto
  note a' = allocDynamic508_Some [OF a]
  show ?thesis
  proof (cases got)
    case False
    with a eq assms(3) have "r = None" "st' = s0" by auto
    with a' False show ?thesis
      by (cases "readBufferDynamic508 st") auto
  next
    case True
    with a eq assms(3) obtain ok rx s where
      t: "transceiveCommand [PN5180_READ_DATA, 0x00] True (nat len) s0 = Some ((ok, rx), s)"
      and r: "r = (if ok then Some Dynamic508 else None)"
      and s: "st' = s\<lparr>readBufferDynamic508 := map_option (fillAt 0 rx) (readBufferDynamic508 s)\<rparr>"
      by (cases "transceiveCommand [PN5180_READ_DATA, 0x00] True (nat len) s0") auto
    from transceiveCommand_trace [OF t] have h: "sameHandle s0 s" by simp
    from assms have n: "0 < nat len" "nat len \<le> 508" by auto
    note rx = transceiveCommand_rx [OF t]
    have len508: "length (fillAt 0 rx (replicate 508 x)) = 508" for x
      using rx n by (cases rx) (auto simp: fillAt_def)
    have tk: "ok \<Longrightarrow> take (nat len) (fillAt 0 rx b) = take (nat len) (misoIn st)
        \<and> nat len \<le> length (misoIn st) \<and> misoIn s = drop (nat len) (misoIn st)" for b
      using rx n a' by (cases rx) (auto simp: fillAt_def)
    show ?thesis
    proof (cases "readBufferDynamic508 st")
      case None
      with a' True have "readBufferDynamic508 s0 = Some (replicate 508 (uninit8 st))"
        "mallocIn st = True # mallocIn s0" by auto
      with h s r a' None len508 tk show ?thesis
        by (auto simp: sameHandle_def deref_def)
    next
      case (Some b)
      with a' have "s0 = st" by simp
      with h s r Some tk show ?thesis
        by (auto simp: sameHandle_def deref_def)
    qed
  qed
qed


text \<open>
  Claim C7. \<open>readData(len)\<close> returns the null pointer for every \<open>len < 0\<close> or
  \<open>len > 508\<close> with the chip handle unchanged (nothing happened on the bus). For
  \<open>0 \<le> len \<le> 16\<close> a non-null result is the fixed 16-byte buffer, and nothing is
  allocated. For \<open>16 < len \<le> 508\<close> a non-null result is the 508-byte buffer: it is
  allocated by one malloc of 508 bytes when there is none yet, and reused without a malloc
  when there is one; the fixed buffer is untouched. On success the first \<open>len\<close> bytes of
  the returned buffer are the bytes the transport received.
\<close>

theorem readData_buffers:
  "(len < 0 \<or> len > 508 \<longrightarrow> readData len st = Some (None, st))
   \<and> (0 \<le> len \<and> len \<le> 16 \<and> readData len st = Some (r, st') \<longrightarrow>
        (r = None \<or> r = Some Static16) \<and> mallocIn st' = mallocIn st \<and>
        readBufferDynamic508 st' = readBufferDynamic508 st)
   \<and> (16 < len \<and> len \<le> 508 \<and> readData len st = Some (r, st') \<longrightarrow>
        (r = None \<or> r = Some Dynamic508) \<and>
        readBufferStatic16 st' = readBufferStatic16 st \<and>
        (case readBufferDynamic508 st of
           Some b \<Rightarrow> mallocIn st' = mallocIn st \<and> readBufferDynamic508 st' \<noteq> None
         | None \<Rightarrow> (\<exists>got. mallocIn st = got # mallocIn st' \<and>
                       (if got then \<exists>b. readBufferDynamic508 st' = Some b \<and> length b = 508
                        else readBufferDynamic508 st' = None \<and> r = None \<and> bus st' = bus st))))
   \<and> (readData len st = Some (Some buf, st') \<longrightarrow>
        take (nat len) (deref st' buf) = take (nat len) (misoIn st) \<and>
        nat len \<le> length (misoIn st) \<and> misoIn st' = drop (nat len) (misoIn st))"
proof -
  have c1: "len < 0 \<or> len > 508 \<longrightarrow> readData len st = Some (None, st)"
    by (auto simp: readData_def)
  have c2: "0 \<le> len \<and> len \<le> 16 \<and> readData len st = Some (r, st') \<longrightarrow>
        (r = None \<or> r = Some Static16) \<and> mallocIn st' = mallocIn st \<and>
        readBufferDynamic508 st' = readBufferDynamic508 st"
    using readData_static [of len st r st'] by blast
  have c3: "16 < len \<and> len \<le> 508 \<and> readData len st = Some (r, st') \<longrightarrow>
        (r = None \<or> r = Some Dynamic508) \<and>
        readBufferStatic16 st' = readBufferStatic16 st \<and>
        (case readBufferDynamic508 st of
           Some b \<Rightarrow> mallocIn st' = mallocIn st \<and> readBufferDynamic508 st' \<noteq> None
         | None \<Rightarrow> (\<exists>got. mallocIn st = got # mallocIn st' \<and>
                       (if got then \<exists>b. readBufferDynamic508 st' = Some b \<and> length b = 508
                        else readBufferDynamic508 st' = None \<and> r = None \<and> bus st' = bus st)))"
    using readData_dynamic [of len st r st'] by blast
  have c4: "readData len st = Some (Some buf, st') \<longrightarrow>
        take (nat len) (deref st' buf) = take (nat len) (misoIn st) \<and>
        nat len \<le> length (misoIn st) \<and> misoIn st' = drop (nat len) (misoIn st)"
  proof
    assume h: "readData len st = Some (Some buf, st')"
    have "\<not> (len < 0 \<or> len > 508)"
    proof
      assume "len < 0 \<or> len > 508"
      with c1 have "readData len st = Some (None, st)" by blast
      with h show False by simp
    qed
    then have b: "0 \<le> len" "len \<le> 508" by auto
    show "take (nat len) (deref st' buf) = take (nat len) (misoIn st) \<and>
        nat len \<le> length (misoIn st) \<and> misoIn st' = drop (nat len) (misoIn st)"
    proof (cases "len \<le> 16")
      case True
      from readData_static [OF b(1) True h] show ?thesis
        by (auto simp: deref_def)
    next
      case False
      then have "16 < len" by simp
      from readData_dynamic [OF this b(2) h] show ?thesis
        by auto
    qed
  qed
  from c1 c2 c3 c4 show ?thesis by blast
qed

text \<open>A chip that answers one frame with a response, with eighteen bytes to shift out.\<close>

definition chipData :: pn5180 where
  "chipData = exampleChip rd [0, 0, 0, 0, 0]
     [0x00, 0x01, 0x02, 0x03, 0x04, 0x05, 0x06, 0x07, 0x08, 0x09, 0x0a, 0x0b, 0x0c, 0x0d,
      0x0e, 0x0f, 0x10, 0x11]"

theorem readData_buffers_witness:
  "readData 509 chipData = Some (None, chipData)
   \<and> map_option fst (readData 2 chipData) = Some (Some Static16)
   \<and> map_option (\<lambda>(r, s). take 2 (readBufferStatic16 s)) (readData 2 chipData)
     = Some [0x00, 0x01]
   \<and> map_option (\<lambda>(r, s). (mallocIn s, readBufferDynamic508 s)) (readData 2 chipData)
     = Some ([True], None)
   \<and> map_option fst (readData 17 chipData) = Some (Some Dynamic508)
   \<and> map_option (\<lambda>(r, s). take 17 (deref s Dynamic508)) (readData 17 chipData)
     = Some [0x00, 0x01, 0x02, 0x03, 0x04, 0x05, 0x06, 0x07, 0x08, 0x09, 0x0a, 0x0b, 0x0c,
             0x0d, 0x0e, 0x0f, 0x10]
   \<and> map_option (\<lambda>(r, s). (mallocIn s, misoIn s)) (readData 17 chipData) = Some ([], [0x11])"
  using readData_buffers [of 509 chipData None chipData Static16]
    readData_buffers [of 2 chipData "Some Static16" "snd (the (readData 2 chipData))" Static16]
    readData_buffers [of 17 chipData "Some Dynamic508" "snd (the (readData 17 chipData))"
      Dynamic508]
  by (simp add: readData_def allocDynamic508_def deref_def register_defs command_defs
      transport_defs example_defs chipData_def)



section \<open>Vicinity protocol (PN5180ISO15693.cpp)\<close>

text \<open>
  \<open>ISO15693ErrorCode\<close> is declared in PN5180ISO15693.h, which is not among the sources.
  Its values are integers (the source casts the error byte of a response to it); the
  named ones below have the codes of the table in the comment of
  \<open>issueISO15693Command\<close> (0 OK, -1 no card, 0F unknown error, 10 block not available,
  A0 the first custom command error code).
\<close>

definition EC_NO_CARD :: int where "EC_NO_CARD = - 1"
definition ISO15693_EC_OK :: int where "ISO15693_EC_OK = 0"
definition ISO15693_EC_UNKNOWN_ERROR :: int where "ISO15693_EC_UNKNOWN_ERROR = 0x0F"
definition ISO15693_EC_BLOCK_NOT_AVAILABLE :: int where "ISO15693_EC_BLOCK_NOT_AVAILABLE = 0x10"
definition ISO15693_EC_CUSTOM_CMD_ERROR :: int where "ISO15693_EC_CUSTOM_CMD_ERROR = 0xA0"

definition ISO15693_REQ_FLAG_DATARATE :: "8 word" where "ISO15693_REQ_FLAG_DATARATE = push_bit 1 1"
definition ISO15693_REQ_FLAG_INVENTORY :: "8 word" where "ISO15693_REQ_FLAG_INVENTORY = push_bit 2 1"
definition ISO15693_REQ_FLAG_NBSLOTS :: "8 word" where "ISO15693_REQ_FLAG_NBSLOTS = push_bit 5 1"
definition ISO15693_CMD_INVENTORY :: "8 word" where "ISO15693_CMD_INVENTORY = 0x01"

lemma getIRQStatus_Some:
  "getIRQStatus K st = Some (r, st') \<Longrightarrow>
     length (millisIn st') < length (millisIn st) \<and> length (bus st) < length (bus st')"
  by (auto simp: getIRQStatus_def split: option.splits if_splits dest!: readRegister_Some)

text \<open>
  The wait for the receive interrupt in \<open>issueISO15693Command\<close>:
  \<^verbatim>\<open>while (!(irqR & RX_IRQ_STAT)) {
    irqR = getIRQStatus();
    if (millis() - startedWaiting > commandTimeout) return EC_NO_CARD; }\<close>
\<close>

function waitRxIrq :: "pn5180_h \<Rightarrow> 32 word \<Rightarrow> 32 word \<Rightarrow> pn5180 \<Rightarrow> (bool \<times> pn5180) option" where
  "waitRxIrq K startedWaiting irqR st =
     (if irqR AND RX_IRQ_STAT K \<noteq> 0 then Some (True, st)
      else
        (case getIRQStatus K st of
           None \<Rightarrow> None
         | Some (irqR', s1) \<Rightarrow>
             (case millis s1 of
                None \<Rightarrow> None
              | Some (t, s2) \<Rightarrow>
                  if t - startedWaiting > commandTimeout s2 then Some (False, s2)
                  else waitRxIrq K startedWaiting irqR' s2)))"
  by pat_completeness auto
termination
  by (relation "measure (\<lambda>(K, startedWaiting, irqR, st). length (millisIn st))")
     (auto dest!: getIRQStatus_Some millis_Some)

declare waitRxIrq.simps [simp del]

text \<open>
  \<open>issueISO15693Command(cmd, cmdLen, &resultPtr)\<close>. The result is the error code and
  the pointer stored in \<open>*resultPtr\<close> (\<open>None\<close> while nothing, or null, was stored).
  \<open>sendData(cmd, cmdLen)\<close> is called with the default \<open>validBits = 0\<close> and its result is
  not looked at. The read buffers hold 16 and 508 bytes, so bytes 0 and 1 exist.
\<close>

definition issueISO15693Command :: "pn5180_h \<Rightarrow> 8 word list \<Rightarrow> 8 word \<Rightarrow> pn5180
    \<Rightarrow> ((int \<times> bufref option) \<times> pn5180) option" where
  "issueISO15693Command K cmd cmdLen st =
     (case sendData K cmd (uint cmdLen) 0 st of
        None \<Rightarrow> None
      | Some (sent, s1) \<Rightarrow>
     (case getIRQStatus K s1 of
        None \<Rightarrow> None
      | Some (irqR, s2) \<Rightarrow>
          if 0 = (irqR AND RX_SOF_DET_IRQ_STAT K) then Some ((EC_NO_CARD, None), s2)
          else
     (case millis s2 of
        None \<Rightarrow> None
      | Some (startedWaiting, s3) \<Rightarrow>
     (case waitRxIrq K startedWaiting irqR s3 of
        None \<Rightarrow> None
      | Some (got, s4) \<Rightarrow>
          if \<not> got then Some ((EC_NO_CARD, None), s4)
          else
     (case readRegister (RX_STATUS K) (uninit32 s4) s4 of
        None \<Rightarrow> None
      | Some ((ok, rxStatus), s5) \<Rightarrow>
          if \<not> ok then Some ((ISO15693_EC_UNKNOWN_ERROR, None), s5)
          else
     (case readData (uint (ucast (rxStatus AND 0x000001ff) :: 16 word)) s5 of
        None \<Rightarrow> None
      | Some (resultPtr, s6) \<Rightarrow>
     (case resultPtr of
        None \<Rightarrow> Some ((ISO15693_EC_UNKNOWN_ERROR, None), s6)
      | Some buf \<Rightarrow>
     (case getIRQStatus K s6 of
        None \<Rightarrow> None
      | Some (irqStatus, s7) \<Rightarrow>
          if 0 = (RX_SOF_DET_IRQ_STAT K AND irqStatus)
          then
            (case clearIRQStatus K (TX_IRQ_STAT K OR IDLE_IRQ_STAT K) s7 of
               None \<Rightarrow> None
             | Some (cleared, s8) \<Rightarrow> Some ((EC_NO_CARD, Some buf), s8))
          else if (deref s7 buf ! 0) AND push_bit 0 1 \<noteq> 0
          then
            (if deref s7 buf ! 1 \<ge> 0xA0 then Some ((ISO15693_EC_CUSTOM_CMD_ERROR, Some buf), s7)
             else Some ((uint (deref s7 buf ! 1), Some buf), s7))
          else
            (case clearIRQStatus K
                    (RX_SOF_DET_IRQ_STAT K OR IDLE_IRQ_STAT K OR TX_IRQ_STAT K OR RX_IRQ_STAT K) s7 of
               None \<Rightarrow> None
             | Some (cleared, s8) \<Rightarrow> Some ((ISO15693_EC_OK, Some buf), s8))))))))))"

text \<open>
  \<open>getInventory(uid)\<close>. The caller's \<open>uid\<close> holds (at least) 8 bytes. The result is the
  error code and the new content of \<open>uid\<close>.
\<close>

definition getInventory :: "pn5180_h \<Rightarrow> 8 word list \<Rightarrow> pn5180
    \<Rightarrow> ((int \<times> 8 word list) \<times> pn5180) option" where
  "getInventory K uid st =
     (let cmd = ISO15693_CMD_INVENTORY;
          flags = ISO15693_REQ_FLAG_NBSLOTS OR ISO15693_REQ_FLAG_INVENTORY OR ISO15693_REQ_FLAG_DATARATE;
          maskLen = 0x00;
          inventory = [cmd, flags, maskLen];
          uid0 = fillAt 0 (Some [0, 0, 0, 0, 0, 0, 0, 0]) uid
      in
        (case issueISO15693Command K inventory 3 st of
           None \<Rightarrow> None
         | Some ((rc, readBuffer), s) \<Rightarrow>
             if ISO15693_EC_OK \<noteq> rc then Some ((rc, uid0), s)
             else
               (case readBuffer of
                  None \<Rightarrow> None
                | Some buf \<Rightarrow>
                    Some ((ISO15693_EC_OK, fillAt 0 (Some (take 8 (drop 2 (deref s buf)))) uid0), s))))"

text \<open>
  \<open>readMultipleBlock(uid, blockNo, numBlock, blockData, blockSize)\<close>. The two guards
  compare in \<open>int\<close>, as the promoted operands do. \<open>uid\<close> holds 8 bytes.
\<close>

definition readMultipleBlock :: "pn5180_h \<Rightarrow> 8 word list \<Rightarrow> 8 word \<Rightarrow> 8 word \<Rightarrow> 8 word list
    \<Rightarrow> 8 word \<Rightarrow> pn5180 \<Rightarrow> ((int \<times> 8 word list) \<times> pn5180) option" where
  "readMultipleBlock K uid blockNo numBlock blockData blockSize st =
     (if uint blockNo > uint numBlock - 1
      then Some ((ISO15693_EC_BLOCK_NOT_AVAILABLE, blockData), st)
      else if uint blockNo + uint numBlock > uint numBlock
      then Some ((ISO15693_EC_BLOCK_NOT_AVAILABLE, blockData), st)
      else
        (case issueISO15693Command K ([0x22, 0x23] @ take 8 uid @ [blockNo, numBlock - 1]) 12 st of
           None \<Rightarrow> None
         | Some ((rc, resultPtr), s) \<Rightarrow>
             if ISO15693_EC_OK \<noteq> rc then Some ((rc, blockData), s)
             else
               (case resultPtr of
                  None \<Rightarrow> None
                | Some buf \<Rightarrow>
                    Some ((ISO15693_EC_OK,
                           fillAt 0 (Some (take (unat numBlock * unat blockSize)
                                             (drop 1 (deref s buf)))) blockData), s))))"

subsection \<open>Steps of the command layer\<close>

text \<open>
  The responses to the READ_DATA frames, read off the bus trace: the bytes of every receive
  transfer that follows a READ_DATA frame within the same bus transaction, in the order
  of the transfers. These are the bytes the chip delivered from its reception buffer, that
  is, the bytes of the card responses.
\<close>

fun dataRecv :: "bool \<Rightarrow> bus_event list \<Rightarrow> 8 word list list" where
  "dataRecv armed [] = []"
| "dataRecv armed (SpiBegin # es) = dataRecv False es"
| "dataRecv armed (SpiSend f # es) = dataRecv (f = [PN5180_READ_DATA, 0x00]) es"
| "dataRecv armed (SpiRecv bs # es) = (if armed then bs # dataRecv False es else dataRecv False es)"
| "dataRecv armed (e # es) = dataRecv armed es"

definition dataIn :: "pn5180 \<Rightarrow> 8 word list list" where
  "dataIn st = dataRecv False (bus st)"

lemma dataRecv_append:
  "dataRecv armed (xs @ SpiBegin # ys) = dataRecv armed xs @ dataRecv False ys"
  by (induction armed xs rule: dataRecv.induct) auto

lemma transceiveCommand_data:
  "transceiveCommand sb rb n st = Some ((ok, rx), st') \<Longrightarrow>
     dataIn st' = dataIn st @
       (if sb = [PN5180_READ_DATA, 0x00] then (case rx of None \<Rightarrow> [] | Some bs \<Rightarrow> [bs]) else [])"
  unfolding transceiveCommand_def sendFrame_def recvFrame_def
  by (auto simp: dataIn_def dataRecv_append endAndDeselect_def digitalWriteNSS_def busEvent_def
        spiTransferIn_def
      split: option.splits if_splits dest!: waitBusy_frame)

text \<open>
  \<open>dataReads\<close> counts the READ_DATA frames sent so far. A step is \<open>quiet\<close> when it
  leaves the handle's buffers and settings alone, sends no READ_DATA frame and receives no
  response to one; it only uses up inputs and extends the bus trace.
\<close>

definition dataReads :: "pn5180 \<Rightarrow> nat" where
  "dataReads st = length (filter (\<lambda>f. f = [PN5180_READ_DATA, 0x00]) (sentFrames (bus st)))"

definition quiet :: "pn5180 \<Rightarrow> pn5180 \<Rightarrow> bool" where
  "quiet st st' \<longleftrightarrow>
     sameHandle st st' \<and> dataReads st' = dataReads st \<and> dataIn st' = dataIn st \<and>
     length (millisIn st') \<le> length (millisIn st) \<and> length (bus st) \<le> length (bus st')"

lemma quiet_refl [simp]: "quiet st st"
  by (simp add: quiet_def sameHandle_def)

lemma quiet_trans: "quiet a b \<Longrightarrow> quiet b c \<Longrightarrow> quiet a c"
  by (auto simp: quiet_def sameHandle_def)

lemma transceiveCommand_quiet:
  assumes "transceiveCommand sb rb n st = Some (r, st')" "sb \<noteq> [PN5180_READ_DATA, 0x00]"
  shows "quiet st st'"
proof -
  obtain ok rx where r: "r = (ok, rx)" by (cases r)
  from assms(1) r transceiveCommand_sent [of sb rb n st ok rx st'] assms(2)
  have "dataReads st' = dataReads st" by (auto simp: dataReads_def)
  moreover from assms(1) r transceiveCommand_data [of sb rb n st ok rx st'] assms(2)
  have "dataIn st' = dataIn st" by simp
  moreover from assms(1) r transceiveCommand_trace [of sb rb n st ok rx st']
  have "sameHandle st st'" by simp
  moreover from assms(1) r transceiveCommand_Some [of sb rb n st ok rx st']
  have "length (millisIn st') \<le> length (millisIn st) \<and> length (bus st) \<le> length (bus st')"
    by simp
  ultimately show ?thesis by (simp add: quiet_def)
qed

lemma writeOnly_quiet:
  "writeOnly cmd st = Some (ok, st') \<Longrightarrow> cmd \<noteq> [PN5180_READ_DATA, 0x00] \<Longrightarrow> quiet st st'"
  by (auto simp: writeOnly_def split: option.splits dest: transceiveCommand_quiet)

lemma writeRegister_quiet: "writeRegister reg v st = Some (ok, st') \<Longrightarrow> quiet st st'"
  by (auto simp: writeRegister_def le32_def dest!: writeOnly_quiet)

lemma writeRegisterWithOrMask_quiet:
  "writeRegisterWithOrMask reg v st = Some (ok, st') \<Longrightarrow> quiet st st'"
  by (auto simp: writeRegisterWithOrMask_def le32_def dest!: writeOnly_quiet)

lemma writeRegisterWithAndMask_quiet:
  "writeRegisterWithAndMask reg v st = Some (ok, st') \<Longrightarrow> quiet st st'"
  by (auto simp: writeRegisterWithAndMask_def le32_def dest!: writeOnly_quiet)

lemma readRegister_quiet: "readRegister reg v0 st = Some (r, st') \<Longrightarrow> quiet st st'"
  by (auto simp: readRegister_def PN5180_READ_REGISTER_def PN5180_READ_DATA_def
      split: option.splits dest!: transceiveCommand_quiet)

lemma loadRFConfig_quiet: "loadRFConfig t r st = Some (ok, st') \<Longrightarrow> quiet st st'"
  by (auto simp: loadRFConfig_def dest!: writeOnly_quiet)

lemma cmd_RfOn_quiet: "cmd_RfOn p st = Some (ok, st') \<Longrightarrow> quiet st st'"
  by (auto simp: cmd_RfOn_def PN5180_RF_ON_def PN5180_READ_DATA_def dest!: writeOnly_quiet)

lemma cmd_RfOff_quiet: "cmd_RfOff p st = Some (ok, st') \<Longrightarrow> quiet st st'"
  by (auto simp: cmd_RfOff_def PN5180_RF_OFF_def PN5180_READ_DATA_def dest!: writeOnly_quiet)

lemma cmd_SendData_quiet: "cmd_SendData d len vb st = Some (ok, st') \<Longrightarrow> quiet st st'"
  by (auto simp: cmd_SendData_def PN5180_SEND_DATA_def PN5180_READ_DATA_def dest!: writeOnly_quiet)

lemma getIRQStatus_quiet: "getIRQStatus K st = Some (r, st') \<Longrightarrow> quiet st st'"
  by (auto simp: getIRQStatus_def split: option.splits if_splits dest!: readRegister_quiet)

lemma clearIRQStatus_quiet: "clearIRQStatus K m st = Some (r, st') \<Longrightarrow> quiet st st'"
  by (auto simp: clearIRQStatus_def dest!: writeRegister_quiet)

lemma getTransceiveState_quiet: "getTransceiveState K st = Some (r, st') \<Longrightarrow> quiet st st'"
  by (auto simp: getTransceiveState_def split: option.splits if_splits dest!: readRegister_quiet)

lemma millis_quiet: "millis st = Some (t, st') \<Longrightarrow> quiet st st'"
  by (auto simp: millis_def quiet_def sameHandle_def dataReads_def dataIn_def split: list.splits)

lemma waitIrqFlag_quiet:
  "waitIrqFlag reg flag tmo t0 v st = Some (r, st') \<Longrightarrow> quiet st st'"
proof (induction reg flag tmo t0 v st rule: waitIrqFlag.induct)
  case (1 reg flag tmo t0 v st)
  from "1.prems" obtain ok v' s1 where rr: "readRegister reg v st = Some ((ok, v'), s1)"
    by (subst (asm) waitIrqFlag.simps) (auto split: option.splits)
  note q1 = readRegister_quiet [OF rr]
  show ?case
  proof (cases "\<not> ok \<or> 0 \<noteq> (flag AND v')")
    case True
    with "1.prems" rr have "st' = s1"
      by (subst (asm) waitIrqFlag.simps) (auto split: if_splits)
    with q1 show ?thesis by simp
  next
    case False
    with "1.prems" rr obtain t s2 where m: "millis s1 = Some (t, s2)"
      by (subst (asm) waitIrqFlag.simps) (auto split: option.splits)
    note q2 = quiet_trans [OF q1 millis_quiet [OF m]]
    show ?thesis
    proof (cases "t - t0 > tmo")
      case True
      with "1.prems" rr m False have "st' = s2"
        by (subst (asm) waitIrqFlag.simps) (auto split: if_splits)
      with q2 show ?thesis by simp
    next
      case nt: False
      with "1.prems" rr m False have "waitIrqFlag reg flag tmo t0 v' s2 = Some (r, st')"
        by (subst (asm) waitIrqFlag.simps) (auto split: if_splits)
      from "1.IH" [OF rr refl refl _ _ m refl nt this] False
      have "quiet s2 st'" by auto
      with q2 show ?thesis by (rule quiet_trans)
    qed
  qed
qed


lemma setRF_on_quiet: "setRF_on K st = Some (r, st') \<Longrightarrow> quiet st st'"
  unfolding setRF_on_def
  by (auto simp: quiet_def sameHandle_def split: option.splits if_splits
      dest!: cmd_RfOn_quiet millis_quiet waitIrqFlag_quiet clearIRQStatus_quiet)

lemma setRF_off_quiet: "setRF_off K st = Some (r, st') \<Longrightarrow> quiet st st'"
  unfolding setRF_off_def
  by (auto simp: quiet_def sameHandle_def split: option.splits if_splits
      dest!: cmd_RfOff_quiet millis_quiet waitIrqFlag_quiet clearIRQStatus_quiet)

lemma sendData_quiet: "sendData K d len vb st = Some (r, st') \<Longrightarrow> quiet st st'"
  unfolding sendData_def
  by (auto simp: quiet_def sameHandle_def split: option.splits if_splits
      dest!: writeRegisterWithAndMask_quiet writeRegisterWithOrMask_quiet
        getTransceiveState_quiet cmd_SendData_quiet)

lemma sendData_Some:
  "sendData K d len vb st = Some (r, st') \<Longrightarrow> len \<le> 260 \<Longrightarrow>
     length (millisIn st') < length (millisIn st) \<and> length (bus st) < length (bus st')"
  unfolding sendData_def
  by (auto simp: quiet_def writeRegisterWithAndMask_def split: option.splits if_splits
      dest!: writeOnly_Some writeRegisterWithOrMask_quiet
        getTransceiveState_quiet cmd_SendData_quiet)

text \<open>The two read buffers have their declared sizes.\<close>

definition wellFormed :: "pn5180 \<Rightarrow> bool" where
  "wellFormed st \<longleftrightarrow>
     length (readBufferStatic16 st) = 16 \<and>
     (case readBufferDynamic508 st of None \<Rightarrow> True | Some b \<Rightarrow> length b = 508)"

lemma quiet_wellFormed: "quiet st st' \<Longrightarrow> wellFormed st' = wellFormed st"
  by (simp add: quiet_def sameHandle_def wellFormed_def)

definition sameConfig :: "pn5180 \<Rightarrow> pn5180 \<Rightarrow> bool" where
  "sameConfig st st' \<longleftrightarrow>
     commandTimeout st' = commandTimeout st \<and> uninit8 st' = uninit8 st \<and>
     uninit16 st' = uninit16 st \<and> uninit32 st' = uninit32 st"

lemma quiet_sameConfig: "quiet st st' \<Longrightarrow> sameConfig st st'"
  by (simp add: quiet_def sameHandle_def sameConfig_def)

lemma transceiveCommand_READ_DATA:
  assumes "transceiveCommand [PN5180_READ_DATA, 0x00] rb n st = Some ((ok, rx), st')"
  shows "sameHandle st st' \<and> length (millisIn st') \<le> length (millisIn st) \<and>
         length (bus st) \<le> length (bus st') \<and> dataReads st \<le> dataReads st' \<and>
         dataReads st' \<le> Suc (dataReads st) \<and> (ok \<longrightarrow> dataReads st' = Suc (dataReads st))"
  using transceiveCommand_sent [OF assms] transceiveCommand_trace [OF assms]
    transceiveCommand_Some [OF assms]
  by (auto simp: dataReads_def)

lemma length_fillAt0:
  "length bs \<le> length b \<Longrightarrow> length (fillAt 0 (Some bs) b) = length b"
  by (simp add: fillAt_def)

lemma readData_step:
  assumes "readData len st = Some (r, st')"
  shows "sameConfig st st' \<and> (wellFormed st \<longrightarrow> wellFormed st') \<and>
         length (millisIn st') \<le> length (millisIn st) \<and> length (bus st) \<le> length (bus st') \<and>
         (case r of None \<Rightarrow> dataReads st \<le> dataReads st'
                  | Some buf \<Rightarrow> dataReads st' = Suc (dataReads st))"
proof -
  consider "len < 0 \<or> len > 508" | "0 \<le> len" "len \<le> 16" | "16 < len" "len \<le> 508"
    by linarith
  then show ?thesis
  proof cases
    case 1
    with assms show ?thesis
      by (auto simp: readData_def sameConfig_def)
  next
    case 2
    with assms obtain ok rx s where
      t: "transceiveCommand [PN5180_READ_DATA, 0x00] True (nat len) st = Some ((ok, rx), s)"
      and r: "r = (if ok then Some Static16 else None)"
      and s: "st' = s\<lparr>readBufferStatic16 := fillAt 0 rx (readBufferStatic16 s)\<rparr>"
      by (auto simp: readData_def toSizeT_nat split: option.splits if_splits)
    have d: "dataReads st' = dataReads s" by (simp add: s dataReads_def)
    have l: "length (fillAt 0 rx (readBufferStatic16 s)) = 16" if "length (readBufferStatic16 s) = 16"
      using transceiveCommand_rx [OF t] 2 that
      by (cases rx) (auto simp: fillAt_def)
    from transceiveCommand_READ_DATA [OF t] r s d l show ?thesis
      by (auto simp: sameConfig_def sameHandle_def wellFormed_def)
  next
    case 3
    note eq = readData_dynamic_eq [OF 3, of st]
    from assms eq obtain got s0 where a: "allocDynamic508 st = Some (got, s0)"
      by (cases "allocDynamic508 st") auto
    have a0: "sameConfig st s0 \<and> (wellFormed st \<longrightarrow> wellFormed s0) \<and> millisIn s0 = millisIn st
        \<and> bus s0 = bus st"
      using a
      by (auto simp: allocDynamic508_def sameConfig_def wellFormed_def
          split: option.splits list.splits if_splits)
    show ?thesis
    proof (cases got)
      case False
      with a eq assms have "r = None" "st' = s0" by auto
      with a0 show ?thesis by (auto simp: dataReads_def)
    next
      case True
      with a eq assms obtain ok rx s where
        t: "transceiveCommand [PN5180_READ_DATA, 0x00] True (nat len) s0 = Some ((ok, rx), s)"
        and r: "r = (if ok then Some Dynamic508 else None)"
        and s: "st' = s\<lparr>readBufferDynamic508 := map_option (fillAt 0 rx) (readBufferDynamic508 s)\<rparr>"
        by (cases "transceiveCommand [PN5180_READ_DATA, 0x00] True (nat len) s0") auto
      have d: "dataReads st' = dataReads s" by (simp add: s dataReads_def)
      have l: "length (fillAt 0 rx b) = 508" if "length b = 508" for b
        using transceiveCommand_rx [OF t] 3 that
        by (cases rx) (auto simp: fillAt_def)
      from transceiveCommand_READ_DATA [OF t] r s d l a0 show ?thesis
        by (auto simp: sameConfig_def sameHandle_def wellFormed_def dataReads_def
            split: option.splits)
    qed
  qed
qed


lemma waitRxIrq_quiet:
  "waitRxIrq K t0 irqR st = Some (r, st') \<Longrightarrow> quiet st st'"
proof (induction K t0 irqR st rule: waitRxIrq.induct)
  case (1 K t0 irqR st)
  show ?case
  proof (cases "irqR AND RX_IRQ_STAT K \<noteq> 0")
    case True
    with "1.prems" have "st' = st"
      by (subst (asm) waitRxIrq.simps) auto
    then show ?thesis by simp
  next
    case False
    with "1.prems" obtain irqR' s1 where g: "getIRQStatus K st = Some (irqR', s1)"
      by (subst (asm) waitRxIrq.simps) (auto split: option.splits)
    with "1.prems" False obtain t s2 where m: "millis s1 = Some (t, s2)"
      by (subst (asm) waitRxIrq.simps) (auto split: option.splits)
    note q2 = quiet_trans [OF getIRQStatus_quiet [OF g] millis_quiet [OF m]]
    show ?thesis
    proof (cases "t - t0 > commandTimeout s2")
      case True
      with "1.prems" g m False have "st' = s2"
        by (subst (asm) waitRxIrq.simps) (auto split: if_splits)
      with q2 show ?thesis by simp
    next
      case nt: False
      with "1.prems" g m False have w: "waitRxIrq K t0 irqR' s2 = Some (r, st')"
        by (subst (asm) waitRxIrq.simps) (auto split: if_splits)
      from False have f: "\<not> irqR AND RX_IRQ_STAT K \<noteq> 0" by simp
      from "1.IH" [OF f g refl m refl nt w]
      have "quiet s2 st'" .
      with q2 show ?thesis by (rule quiet_trans)
    qed
  qed
qed

text \<open>A step that may also fill the read buffers.\<close>

definition advance :: "pn5180 \<Rightarrow> pn5180 \<Rightarrow> bool" where
  "advance st st' \<longleftrightarrow>
     sameConfig st st' \<and> (wellFormed st \<longrightarrow> wellFormed st') \<and>
     length (millisIn st') \<le> length (millisIn st) \<and> length (bus st) \<le> length (bus st')"

lemma quiet_advance: "quiet st st' \<Longrightarrow> advance st st'"
  by (simp add: advance_def quiet_sameConfig quiet_wellFormed) (simp add: quiet_def)

lemma readData_advance: "readData len st = Some (r, st') \<Longrightarrow> advance st st'"
  by (drule readData_step) (simp add: advance_def)

lemmas advance_steps =
  getIRQStatus_quiet [THEN quiet_advance] millis_quiet [THEN quiet_advance]
  waitRxIrq_quiet [THEN quiet_advance] readRegister_quiet [THEN quiet_advance]
  clearIRQStatus_quiet [THEN quiet_advance]
  writeRegisterWithAndMask_quiet [THEN quiet_advance]
  writeRegisterWithOrMask_quiet [THEN quiet_advance]
  getTransceiveState_quiet [THEN quiet_advance] loadRFConfig_quiet [THEN quiet_advance]
  setRF_on_quiet [THEN quiet_advance] setRF_off_quiet [THEN quiet_advance]
  readData_advance

lemma advance_refl [simp]: "advance st st"
  by (simp add: advance_def sameConfig_def)

lemma advance_trans: "advance a b \<Longrightarrow> advance b c \<Longrightarrow> advance a c"
  by (auto simp: advance_def sameConfig_def)

lemmas sendData_advance = sendData_quiet [THEN quiet_advance]

lemma sendData_u8:
  "sendData K d (uint (n :: 8 word)) vb st = Some (r, st') \<Longrightarrow>
     advance st st' \<and> length (millisIn st') < length (millisIn st) \<and>
     length (bus st) < length (bus st')"
proof -
  assume a: "sendData K d (uint n) vb st = Some (r, st')"
  have "uint n \<le> 255" using uint_lt2p [of n] by simp
  then have "uint n \<le> 260" by simp
  from sendData_Some [OF a this] sendData_advance [OF a] show ?thesis by simp
qed

lemma issueISO15693Command_advance:
  assumes "issueISO15693Command K cmd cmdLen st = Some (r, st')"
  shows "advance st st'"
  using assms unfolding issueISO15693Command_def
  apply (simp split: option.splits if_splits prod.splits)
  apply (auto dest!: advance_steps sendData_advance simp: advance_def sameConfig_def)
  done


lemma issueISO15693Command_strict:
  assumes "issueISO15693Command K cmd cmdLen st = Some (r, st')"
  shows "length (millisIn st') < length (millisIn st) \<and> length (bus st) < length (bus st')"
  using assms unfolding issueISO15693Command_def
  apply (simp split: option.splits if_splits prod.splits)
  apply (auto dest!: sendData_u8 advance_steps simp: advance_def sameConfig_def)
  done

lemma issueISO15693Command_ptr:
  assumes "issueISO15693Command K cmd cmdLen st = Some ((ISO15693_EC_OK, ptr), st')"
  shows "ptr \<noteq> None"
  using assms unfolding issueISO15693Command_def
  apply (simp split: option.splits if_splits prod.splits)
  apply (auto simp: EC_NO_CARD_def ISO15693_EC_OK_def ISO15693_EC_UNKNOWN_ERROR_def)
  done


lemma readData_Dynamic508:
  assumes "readData len st = Some (Some Dynamic508, st')"
  shows "readBufferDynamic508 st' \<noteq> None"
proof -
  from assms have b: "0 \<le> len" "len \<le> 508"
    by (auto simp: readData_def split: if_splits)
  show ?thesis
  proof (cases "len \<le> 16")
    case True
    from readData_static [OF b(1) True assms] show ?thesis by simp
  next
    case False
    then have "16 < len" by simp
    from readData_dynamic [OF this b(2) assms] show ?thesis
      by (auto split: option.splits if_splits)
  qed
qed

lemmas quiet_steps =
  getIRQStatus_quiet millis_quiet waitRxIrq_quiet readRegister_quiet clearIRQStatus_quiet
  sendData_quiet writeRegisterWithAndMask_quiet writeRegisterWithOrMask_quiet
  getTransceiveState_quiet loadRFConfig_quiet setRF_on_quiet setRF_off_quiet

lemma issueISO15693Command_Dynamic508:
  assumes "issueISO15693Command K cmd cmdLen st = Some ((rc, Some Dynamic508), st')"
  shows "readBufferDynamic508 st' \<noteq> None"
  using assms unfolding issueISO15693Command_def
  apply (simp split: option.splits if_splits prod.splits)
  apply (auto dest!: clearIRQStatus_quiet getIRQStatus_quiet readData_Dynamic508
      simp: quiet_def sameHandle_def)
  done

lemma issueISO15693Command_buf:
  assumes "issueISO15693Command K cmd cmdLen st = Some ((rc, Some buf), st')" "wellFormed st"
  shows "16 \<le> length (deref st' buf)"
proof -
  from issueISO15693Command_advance [OF assms(1)] assms(2) have w: "wellFormed st'"
    by (simp add: advance_def)
  show ?thesis
  proof (cases buf)
    case Static16
    with w show ?thesis by (simp add: wellFormed_def deref_def)
  next
    case Dynamic508
    with assms(1) issueISO15693Command_Dynamic508 [of K cmd cmdLen st rc st']
    have "readBufferDynamic508 st' \<noteq> None" by simp
    with w Dynamic508 show ?thesis by (auto simp: wellFormed_def deref_def)
  qed
qed


text \<open>
  The bytes received in answer to READ_DATA frames between two states of the chip handle:
  for \<open>issueISO15693Command\<close>, which reads once, the response of the card as the chip
  delivered it.
\<close>

definition responseBytes :: "pn5180 \<Rightarrow> pn5180 \<Rightarrow> 8 word list" where
  "responseBytes st st' = concat (drop (length (dataIn st)) (dataIn st'))"

lemma readData_recv:
  assumes "readData len st = Some (Some buf, st')"
  shows "0 \<le> len \<and> len \<le> 508 \<and> nat len \<le> length (misoIn st) \<and>
         dataIn st' = dataIn st @ (if len = 0 then [] else [take (nat len) (misoIn st)]) \<and>
         take (nat len) (deref st' buf) = take (nat len) (misoIn st) \<and>
         (len \<le> 16 \<longrightarrow> buf = Static16 \<and>
            drop (nat len) (readBufferStatic16 st') = drop (nat len) (readBufferStatic16 st))"
proof -
  from assms have b: "0 \<le> len" "len \<le> 508"
    by (auto simp: readData_def split: if_splits)
  show ?thesis
  proof (cases "len \<le> 16")
    case True
    with assms b obtain ok rx s where
      t: "transceiveCommand [PN5180_READ_DATA, 0x00] True (nat len) st = Some ((ok, rx), s)"
      and r: "Some buf = (if ok then Some Static16 else None)"
      and s: "st' = s\<lparr>readBufferStatic16 := fillAt 0 rx (readBufferStatic16 s)\<rparr>"
      by (auto simp: readData_def toSizeT_nat split: option.splits if_splits)
    from transceiveCommand_trace [OF t] have h: "sameHandle st s" by simp
    have d: "dataIn st' = dataIn s" by (simp add: s dataIn_def)
    from transceiveCommand_rx [OF t] transceiveCommand_data [OF t] r s h d b True show ?thesis
      by (cases rx; cases "nat len = 0")
         (auto simp: sameHandle_def fillAt_def deref_def split: if_splits)
  next
    case False
    then have l: "16 < len" by simp
    note eq = readData_dynamic_eq [OF l b(2), of st]
    from assms eq obtain got s0 where a: "allocDynamic508 st = Some (got, s0)"
      by (cases "allocDynamic508 st") auto
    note a' = allocDynamic508_Some [OF a]
    from a eq assms have got by (cases got) auto
    with a eq assms obtain ok rx s where
      t: "transceiveCommand [PN5180_READ_DATA, 0x00] True (nat len) s0 = Some ((ok, rx), s)"
      and r: "Some buf = (if ok then Some Dynamic508 else None)"
      and s: "st' = s\<lparr>readBufferDynamic508 := map_option (fillAt 0 rx) (readBufferDynamic508 s)\<rparr>"
      by (cases "transceiveCommand [PN5180_READ_DATA, 0x00] True (nat len) s0") auto
    have d: "dataIn st' = dataIn s" by (simp add: s dataIn_def)
    from a' have d0: "dataIn s0 = dataIn st" by (simp add: dataIn_def)
    from readData_dynamic [OF l b(2) assms]
    have k: "take (nat len) (deref st' Dynamic508) = take (nat len) (misoIn st)
        \<and> nat len \<le> length (misoIn st)" by simp
    from r have bd: "buf = Dynamic508" "ok" by (auto split: if_splits)
    from transceiveCommand_rx [OF t] transceiveCommand_data [OF t] bd l a'
    have "dataIn s = dataIn s0 @ [take (nat len) (misoIn st)]"
      by (cases rx) auto
    with d d0 k bd b l show ?thesis by auto
  qed
qed

lemma issueISO15693Command_read:
  assumes "issueISO15693Command K cmd cmdLen st = Some ((rc, Some buf), st')"
  shows "\<exists>len s5 s6. readData len s5 = Some (Some buf, s6) \<and> dataIn s5 = dataIn st \<and>
           dataIn st' = dataIn s6 \<and> readBufferStatic16 s5 = readBufferStatic16 st \<and>
           readBufferStatic16 st' = readBufferStatic16 s6 \<and>
           readBufferDynamic508 st' = readBufferDynamic508 s6"
  using assms unfolding issueISO15693Command_def
  apply (simp split: option.splits if_splits prod.splits)
  apply (auto dest!: quiet_steps simp: quiet_def sameHandle_def)
  apply blast+
  done


lemma issueISO15693Command_recv:
  assumes "issueISO15693Command K cmd cmdLen st = Some ((rc, Some buf), st')"
  shows "take (length (responseBytes st st')) (deref st' buf) = responseBytes st st' \<and>
         (length (responseBytes st st') \<le> 16 \<longrightarrow> buf = Static16 \<and>
            drop (length (responseBytes st st')) (readBufferStatic16 st')
              = drop (length (responseBytes st st')) (readBufferStatic16 st))"
proof -
  from issueISO15693Command_read [OF assms] obtain len s5 s6 where
    r: "readData len s5 = Some (Some buf, s6)" and d5: "dataIn s5 = dataIn st"
    and d6: "dataIn st' = dataIn s6" and b5: "readBufferStatic16 s5 = readBufferStatic16 st"
    and b6: "readBufferStatic16 st' = readBufferStatic16 s6"
    and c6: "readBufferDynamic508 st' = readBufferDynamic508 s6"
    by blast
  note rd = readData_recv [OF r]
  from rd d5 d6 have rc: "responseBytes st st' = take (nat len) (misoIn s5)"
    by (auto simp: responseBytes_def)
  with rd have l: "length (responseBytes st st') = nat len" by simp
  from b6 c6 have e: "deref st' buf = deref s6 buf" by (cases buf) (simp_all add: deref_def)
  from rd l have "length (responseBytes st st') \<le> 16 \<longleftrightarrow> len \<le> 16" by auto
  with rd rc l e b5 b6 show ?thesis by auto
qed


text \<open>
  The two guards of \<open>readMultipleBlock\<close>. The first, \<open>blockNo > numBlock - 1\<close>, holds
  exactly when \<open>blockNo \<ge> numBlock\<close>. The second, \<open>(blockNo + numBlock) > numBlock\<close>, is
  computed in \<open>int\<close> and holds for every \<open>blockNo > 0\<close>. So the call returns the
  block-not-available error with the chip handle unchanged whenever \<open>blockNo \<ge> numBlock\<close> or
  \<open>blockNo > 0\<close>, and the request \<open>{0x22, 0x23, uid[0..7], blockNo, numBlock - 1}\<close> is issued
  only with \<open>blockNo = 0\<close>.
\<close>

lemma readMultipleBlock_guards:
  "(numBlock \<le> blockNo \<or> 0 < blockNo \<longrightarrow>
      readMultipleBlock K uid blockNo numBlock blockData blockSize st
        = Some ((ISO15693_EC_BLOCK_NOT_AVAILABLE, blockData), st))
   \<and> (blockNo = 0 \<and> 0 < numBlock \<longrightarrow>
      readMultipleBlock K uid blockNo numBlock blockData blockSize st =
        (case issueISO15693Command K ([0x22, 0x23] @ take 8 uid @ [0, numBlock - 1]) 12 st of
           None \<Rightarrow> None
         | Some ((rc, resultPtr), s) \<Rightarrow>
             if ISO15693_EC_OK \<noteq> rc then Some ((rc, blockData), s)
             else
               (case resultPtr of
                  None \<Rightarrow> None
                | Some buf \<Rightarrow>
                    Some ((ISO15693_EC_OK,
                           fillAt 0 (Some (take (unat numBlock * unat blockSize)
                                             (drop 1 (deref s buf)))) blockData), s))))
   \<and> (readMultipleBlock K uid blockNo numBlock blockData blockSize st = Some ((rc', data'), st') \<longrightarrow>
        ((rc' = ISO15693_EC_BLOCK_NOT_AVAILABLE \<and> bus st' = bus st)
           \<longleftrightarrow> (numBlock \<le> blockNo \<or> 0 < blockNo)))"
proof -
  have g1: "uint blockNo > uint numBlock - 1 \<longleftrightarrow> numBlock \<le> blockNo"
    by (auto simp: word_le_def)
  have g2: "uint blockNo + uint numBlock > uint numBlock \<longleftrightarrow> 0 < blockNo"
    by (auto simp: word_less_def)
  have c1: "numBlock \<le> blockNo \<or> 0 < blockNo \<Longrightarrow>
      readMultipleBlock K uid blockNo numBlock blockData blockSize st
        = Some ((ISO15693_EC_BLOCK_NOT_AVAILABLE, blockData), st)"
    unfolding readMultipleBlock_def g1 g2 by auto
  have ng: "\<not> (numBlock \<le> blockNo \<or> 0 < blockNo) \<longleftrightarrow> blockNo = 0 \<and> 0 < numBlock"
    by (auto simp: word_gt_0 not_le)
  have c2: "readMultipleBlock K uid blockNo numBlock blockData blockSize st =
        (case issueISO15693Command K ([0x22, 0x23] @ take 8 uid @ [0, numBlock - 1]) 12 st of
           None \<Rightarrow> None
         | Some ((rc, resultPtr), s) \<Rightarrow>
             if ISO15693_EC_OK \<noteq> rc then Some ((rc, blockData), s)
             else
               (case resultPtr of
                  None \<Rightarrow> None
                | Some buf \<Rightarrow>
                    Some ((ISO15693_EC_OK,
                           fillAt 0 (Some (take (unat numBlock * unat blockSize)
                                             (drop 1 (deref s buf)))) blockData), s)))"
    if "blockNo = 0 \<and> 0 < numBlock"
    using that ng unfolding readMultipleBlock_def g1 g2 by auto
  have c3: "bus st' \<noteq> bus st"
    if r: "readMultipleBlock K uid blockNo numBlock blockData blockSize st = Some ((rc', data'), st')"
      and n: "blockNo = 0 \<and> 0 < numBlock"
  proof -
    from r c2 [OF n] obtain x where
      "issueISO15693Command K ([0x22, 0x23] @ take 8 uid @ [0, numBlock - 1]) 12 st = Some (x, st')"
      by (auto split: option.splits prod.splits if_splits)
    from issueISO15693Command_strict [OF this] show ?thesis by auto
  qed
  from c1 c2 c3 ng show ?thesis by (intro conjI impI) auto
qed

text \<open>
  A chip with a tag in the field: the transceiver is in WaitTransmit, the interrupt status
  shows receive-start-of-frame and receive-complete, RX_STATUS gives the length of the
  response \<open>resp\<close>, and READ_DATA delivers it.
\<close>

definition chipVicinity :: "8 word list \<Rightarrow> pn5180" where
  "chipVicinity resp =
     exampleChip (wr @ wr @ rd @ wr @ rd @ rd @ rd @ rd @ wr)
       [0, 0, 0, 0, 0, 0, 0, 0, 0, 0, 0, 0, 0, 0, 0, 0, 0, 0, 0, 0,
        0, 0, 0, 0, 0, 0, 0, 0, 0, 0, 0, 0, 0, 0, 0, 0, 0, 0]
       ([0x00, 0x00, 0x00, 0x01] @ [0x01, 0x40, 0x00, 0x00] @ [of_nat (length resp), 0x00, 0x00, 0x00]
          @ resp @ [0x01, 0x40, 0x00, 0x00])"

lemmas vicinity_defs =
  issueISO15693Command_def sendData_def readData_def deref_def waitRxIrq.simps
  EC_NO_CARD_def ISO15693_EC_OK_def ISO15693_EC_UNKNOWN_ERROR_def
  ISO15693_EC_BLOCK_NOT_AVAILABLE_def ISO15693_EC_CUSTOM_CMD_ERROR_def
  ISO15693_REQ_FLAG_DATARATE_def ISO15693_REQ_FLAG_INVENTORY_def ISO15693_REQ_FLAG_NBSLOTS_def
  ISO15693_CMD_INVENTORY_def

text \<open>
  Claim C1: \<open>readMultipleBlock\<close> returns the block-not-available error without any bus
  activity exactly when \<open>blockNo \<ge> numBlock\<close>, and issues the read-multiple-blocks request
  whenever \<open>blockNo < numBlock\<close>. The code does not: for block 1 of 5, with a tag in the
  field, the call returns block-not-available and the chip handle is unchanged, so nothing
  went over the bus, although \<open>1 < 5\<close>. The second guard, commented
  "End of block exceeds length of data", refuses every first block other than 0, while the
  request that follows it carries \<open>blockNo\<close> as the first block number. From block 0 the
  same tag is read: the request \<open>{0x22, 0x23, uid, 0x00, 0x01}\<close> goes out in a SEND_DATA
  frame and the two blocks come back.
\<close>

theorem readMultipleBlock_block1:
  "readMultipleBlock exampleRegs [1, 2, 3, 4, 5, 6, 7, 8] 1 5 [] 4
       (chipVicinity [0x00, 0xa1, 0xa2, 0xa3, 0xa4, 0xb1, 0xb2, 0xb3, 0xb4])
     = Some ((ISO15693_EC_BLOCK_NOT_AVAILABLE, []),
             chipVicinity [0x00, 0xa1, 0xa2, 0xa3, 0xa4, 0xb1, 0xb2, 0xb3, 0xb4])
   \<and> map_option fst (readMultipleBlock exampleRegs [1, 2, 3, 4, 5, 6, 7, 8] 0 2 [] 4
       (chipVicinity [0x00, 0xa1, 0xa2, 0xa3, 0xa4, 0xb1, 0xb2, 0xb3, 0xb4]))
     = Some (ISO15693_EC_OK, [0xa1, 0xa2, 0xa3, 0xa4, 0xb1, 0xb2, 0xb3, 0xb4])
   \<and> map_option (take 4 \<circ> sentFrames \<circ> bus \<circ> snd)
       (readMultipleBlock exampleRegs [1, 2, 3, 4, 5, 6, 7, 8] 0 2 [] 4
         (chipVicinity [0x00, 0xa1, 0xa2, 0xa3, 0xa4, 0xb1, 0xb2, 0xb3, 0xb4]))
     = Some [[0x02, 0x00, 0xf8, 0xff, 0xff, 0xff], [0x01, 0x00, 0x03, 0x00, 0x00, 0x00],
             [0x04, 0x1d],
             [0x09, 0x00, 0x22, 0x23, 1, 2, 3, 4, 5, 6, 7, 8, 0x00, 0x01]]"
  by (simp add: readMultipleBlock_def vicinity_defs register_defs command_defs transport_defs
      example_defs chipVicinity_def word_le_def word_less_def)


lemma Suc8: "Suc (Suc (Suc (Suc (Suc (Suc (Suc (Suc 0))))))) = 8"
  by simp

lemma fillAt0_zero8: "fillAt 0 (Some [0, 0, 0, 0, 0, 0, 0, 0]) uid = [0, 0, 0, 0, 0, 0, 0, 0] @ drop 8 uid"
  by (simp add: fillAt_def Suc8)

lemma inventoryFlags: "ISO15693_REQ_FLAG_NBSLOTS OR ISO15693_REQ_FLAG_INVENTORY OR ISO15693_REQ_FLAG_DATARATE = (0x26 :: 8 word)"
  by (simp add: ISO15693_REQ_FLAG_NBSLOTS_def ISO15693_REQ_FLAG_INVENTORY_def ISO15693_REQ_FLAG_DATARATE_def)

text \<open>
  Claim C10, amended. \<open>getInventory\<close> sets the 8 bytes of the caller's \<open>uid\<close> to 0 before
  it issues the inventory command \<open>{0x01, 0x26, 0x00}\<close>, so on every error return these 8
  bytes are 0 (and the rest of the buffer is untouched). On a success return with a response
  of at least 10 bytes they are exactly bytes 2 to 9 of the response the chip delivered.
  The length of the response is not checked: on every success return the 8 bytes are bytes
  2 to 9 of the read buffer the response was read into, whose first bytes are the
  response; behind a response of at most 16 bytes, that buffer is the fixed one and still
  holds what it held before the call.
\<close>

theorem getInventory_uid:
  "getInventory K uid st = Some ((rc, uid'), st') \<and> wellFormed st \<longrightarrow>
     (rc \<noteq> ISO15693_EC_OK \<longrightarrow> uid' = [0, 0, 0, 0, 0, 0, 0, 0] @ drop 8 uid)
     \<and> (rc = ISO15693_EC_OK \<and> 10 \<le> length (responseBytes st st') \<longrightarrow>
          uid' = take 8 (drop 2 (responseBytes st st')) @ drop 8 uid)
     \<and> (rc = ISO15693_EC_OK \<longrightarrow>
          (\<exists>buf. uid' = take 8 (drop 2 (deref st' buf)) @ drop 8 uid
             \<and> take (length (responseBytes st st')) (deref st' buf) = responseBytes st st'
             \<and> (length (responseBytes st st') \<le> 16 \<longrightarrow> buf = Static16 \<and>
                  drop (length (responseBytes st st')) (readBufferStatic16 st')
                    = drop (length (responseBytes st st')) (readBufferStatic16 st))))"
proof (intro impI, elim conjE)
  assume g: "getInventory K uid st = Some ((rc, uid'), st')" and w: "wellFormed st"
  from g obtain rc0 ptr where
    i: "issueISO15693Command K [ISO15693_CMD_INVENTORY, 0x26, 0x00] 3 st = Some ((rc0, ptr), st')"
    by (auto simp: getInventory_def inventoryFlags Let_def split: option.splits if_splits)
  have c1: "rc \<noteq> ISO15693_EC_OK \<longrightarrow> uid' = [0, 0, 0, 0, 0, 0, 0, 0] @ drop 8 uid"
    using g i
    by (cases "rc0 = ISO15693_EC_OK"; cases ptr)
       (auto simp: getInventory_def inventoryFlags Let_def fillAt0_zero8)
  have c3: "\<exists>buf. uid' = take 8 (drop 2 (deref st' buf)) @ drop 8 uid
             \<and> take (length (responseBytes st st')) (deref st' buf) = responseBytes st st'
             \<and> (length (responseBytes st st') \<le> 16 \<longrightarrow> buf = Static16 \<and>
                  drop (length (responseBytes st st')) (readBufferStatic16 st')
                    = drop (length (responseBytes st st')) (readBufferStatic16 st))"
    if ok: "rc = ISO15693_EC_OK"
  proof -
    from g i ok have r0: "rc0 = ISO15693_EC_OK"
      by (auto simp: getInventory_def inventoryFlags Let_def split: if_splits option.splits)
    with g i obtain buf where p: "ptr = Some buf"
      by (cases ptr) (auto simp: getInventory_def inventoryFlags Let_def)
    from i p w have l: "16 \<le> length (deref st' buf)"
      by (auto dest: issueISO15693Command_buf)
    with g i p r0 have u: "uid' = take 8 (drop 2 (deref st' buf)) @ drop 8 uid"
      by (auto simp: getInventory_def inventoryFlags Let_def fillAt_def Suc8)
    from i p issueISO15693Command_recv [of K _ 3 st rc0 buf st'] u show ?thesis
      by blast
  qed
  have c2: "uid' = take 8 (drop 2 (responseBytes st st')) @ drop 8 uid"
    if ok: "rc = ISO15693_EC_OK" and n: "10 \<le> length (responseBytes st st')"
  proof -
    from c3 [OF ok] obtain buf where u: "uid' = take 8 (drop 2 (deref st' buf)) @ drop 8 uid"
      and t: "take (length (responseBytes st st')) (deref st' buf) = responseBytes st st'" by blast
    have "take 8 (drop 2 (take (length (responseBytes st st')) (deref st' buf)))
        = take 8 (drop 2 (deref st' buf))"
      using n by (simp add: drop_take min_def)
    with u t show ?thesis by simp
  qed
  from c1 c2 c3
  show "(rc \<noteq> ISO15693_EC_OK \<longrightarrow> uid' = [0, 0, 0, 0, 0, 0, 0, 0] @ drop 8 uid)
     \<and> (rc = ISO15693_EC_OK \<and> 10 \<le> length (responseBytes st st') \<longrightarrow>
          uid' = take 8 (drop 2 (responseBytes st st')) @ drop 8 uid)
     \<and> (rc = ISO15693_EC_OK \<longrightarrow>
          (\<exists>buf. uid' = take 8 (drop 2 (deref st' buf)) @ drop 8 uid
             \<and> take (length (responseBytes st st')) (deref st' buf) = responseBytes st st'
             \<and> (length (responseBytes st st') \<le> 16 \<longrightarrow> buf = Static16 \<and>
                  drop (length (responseBytes st st')) (readBufferStatic16 st')
                    = drop (length (responseBytes st st')) (readBufferStatic16 st))))"
    by blast
qed


text \<open>
  The claim as stated (on a success return the uid buffer holds exactly bytes 2 to 9 of the
  device response) fails when the response is shorter than 10 bytes. A chip answers a first
  inventory with the 10 bytes of a tag and a second one with the 2 bytes \<open>00 00\<close>: the
  second call returns success too, and the uid it returns is that of the first tag, left
  over in the read buffer; none of its bytes is in the response.
\<close>

definition chipTwoAnswers :: pn5180 where
  "chipTwoAnswers =
     exampleChip (wr @ wr @ rd @ wr @ rd @ rd @ rd @ rd @ wr @ wr @ wr @ rd @ wr @ rd @ rd @ rd @ rd @ wr)
       [0, 0, 0, 0, 0, 0, 0, 0, 0, 0, 0, 0, 0, 0, 0, 0, 0, 0, 0, 0,
        0, 0, 0, 0, 0, 0, 0, 0, 0, 0, 0, 0, 0, 0, 0, 0, 0, 0,
        0, 0, 0, 0, 0, 0, 0, 0, 0, 0, 0, 0, 0, 0, 0, 0, 0, 0, 0, 0,
        0, 0, 0, 0, 0, 0, 0, 0, 0, 0, 0, 0, 0, 0, 0, 0, 0, 0]
       ([0x00, 0x00, 0x00, 0x01] @ [0x01, 0x40, 0x00, 0x00] @ [0x0a, 0x00, 0x00, 0x00]
          @ [0x00, 0x00, 0x1d, 0x2c, 0x3b, 0x4a, 0x59, 0x68, 0x04, 0xe0] @ [0x01, 0x40, 0x00, 0x00]
          @ [0x00, 0x00, 0x00, 0x01] @ [0x01, 0x40, 0x00, 0x00] @ [0x02, 0x00, 0x00, 0x00]
          @ [0x00, 0x00] @ [0x01, 0x40, 0x00, 0x00])"

theorem getInventory_uid_counterexample:
  "map_option fst (getInventory exampleRegs [0, 0, 0, 0, 0, 0, 0, 0] chipTwoAnswers)
     = Some (ISO15693_EC_OK, [0x1d, 0x2c, 0x3b, 0x4a, 0x59, 0x68, 0x04, 0xe0])
   \<and> map_option fst (getInventory exampleRegs [0, 0, 0, 0, 0, 0, 0, 0]
         (snd (the (getInventory exampleRegs [0, 0, 0, 0, 0, 0, 0, 0] chipTwoAnswers))))
     = Some (ISO15693_EC_OK, [0x1d, 0x2c, 0x3b, 0x4a, 0x59, 0x68, 0x04, 0xe0])
   \<and> map_option (responseBytes (snd (the (getInventory exampleRegs [0, 0, 0, 0, 0, 0, 0, 0] chipTwoAnswers))) \<circ> snd)
       (getInventory exampleRegs [0, 0, 0, 0, 0, 0, 0, 0]
         (snd (the (getInventory exampleRegs [0, 0, 0, 0, 0, 0, 0, 0] chipTwoAnswers))))
     = Some [0x00, 0x00]"
  by (simp add: getInventory_def wellFormed_def vicinity_defs register_defs command_defs
      transport_defs example_defs chipTwoAnswers_def responseBytes_def dataIn_def)


text \<open>A chip with no tag in the field: the interrupt status after the request is 0.\<close>

definition chipNoTag :: pn5180 where
  "chipNoTag =
     exampleChip (wr @ wr @ rd @ wr @ rd)
       [0, 0, 0, 0, 0, 0, 0, 0, 0, 0, 0, 0, 0, 0, 0, 0, 0, 0, 0]
       ([0x00, 0x00, 0x00, 0x01] @ [0x00, 0x00, 0x00, 0x00])"

theorem getInventory_uid_witness:
  "wellFormed chipNoTag
   \<and> map_option fst (getInventory exampleRegs [1, 2, 3, 4, 5, 6, 7, 8] chipNoTag)
     = Some (EC_NO_CARD, [0, 0, 0, 0, 0, 0, 0, 0])
   \<and> map_option fst (getInventory exampleRegs [1, 2, 3, 4, 5, 6, 7, 8]
        (chipVicinity [0x00, 0x00, 0x1d, 0x2c, 0x3b, 0x4a, 0x59, 0x68, 0x04, 0xe0]))
     = Some (ISO15693_EC_OK, [0x1d, 0x2c, 0x3b, 0x4a, 0x59, 0x68, 0x04, 0xe0])
   \<and> map_option (responseBytes (chipVicinity [0x00, 0x00, 0x1d, 0x2c, 0x3b, 0x4a, 0x59, 0x68, 0x04, 0xe0]) \<circ> snd)
       (getInventory exampleRegs [1, 2, 3, 4, 5, 6, 7, 8]
        (chipVicinity [0x00, 0x00, 0x1d, 0x2c, 0x3b, 0x4a, 0x59, 0x68, 0x04, 0xe0]))
     = Some [0x00, 0x00, 0x1d, 0x2c, 0x3b, 0x4a, 0x59, 0x68, 0x04, 0xe0]"
  using getInventory_uid
    [of exampleRegs "[1, 2, 3, 4, 5, 6, 7, 8]" chipNoTag EC_NO_CARD "[0, 0, 0, 0, 0, 0, 0, 0]"
        "snd (the (getInventory exampleRegs [1, 2, 3, 4, 5, 6, 7, 8] chipNoTag))"]
    getInventory_uid
    [of exampleRegs "[1, 2, 3, 4, 5, 6, 7, 8]"
        "chipVicinity [0x00, 0x00, 0x1d, 0x2c, 0x3b, 0x4a, 0x59, 0x68, 0x04, 0xe0]"
        ISO15693_EC_OK "[0x1d, 0x2c, 0x3b, 0x4a, 0x59, 0x68, 0x04, 0xe0]"
        "snd (the (getInventory exampleRegs [1, 2, 3, 4, 5, 6, 7, 8]
           (chipVicinity [0x00, 0x00, 0x1d, 0x2c, 0x3b, 0x4a, 0x59, 0x68, 0x04, 0xe0])))"]
  by (simp add: getInventory_def wellFormed_def vicinity_defs register_defs command_defs
      transport_defs example_defs chipVicinity_def chipNoTag_def responseBytes_def dataIn_def)



section \<open>Type-A protocol (PN5180ISO14443.cpp)\<close>































end
